theory Spec2Isabelle
  imports Complex_Main
begin

section \<open>Values: decoded JSON, exceptions, observable events\<close>

text \<open>
  \<open>json.loads\<close> yields Python values: \<open>None\<close>, booleans, numbers, strings, lists and
  dicts. A dict keeps its keys in insertion order, so it is an association list; a key is
  looked up with \<open>map_of\<close>. A float is a real number here: the code only passes floats on
  and tests them for zero. \<open>JNull\<close> is Python's \<open>None\<close>.
\<close>

datatype json =
    JNull
  | JBool bool
  | JInt int
  | JFloat real
  | JStr string
  | JList "json list"
  | JDict "(string \<times> json) list"

text \<open>Python truthiness: what \<open>not x\<close> and \<open>if x\<close> test.\<close>

fun truthy :: "json \<Rightarrow> bool" where
  "truthy JNull = False"
| "truthy (JBool b) = b"
| "truthy (JInt n) = (n \<noteq> 0)"
| "truthy (JFloat x) = (x \<noteq> 0)"
| "truthy (JStr s) = (s \<noteq> [])"
| "truthy (JList xs) = (xs \<noteq> [])"
| "truthy (JDict kvs) = (kvs \<noteq> [])"

text \<open>
  The classes that \<open>providers.py\<close> imports by name, which are the values of
  \<open>PROVIDER_CODE_TO_EXCEPTION\<close>, and the classes of \<open>ERROR_CODE_TO_EXCEPTION\<close>. A value of
  that table is one of the named classes or a class that the given sources do not name
  (\<open>Action c\<close>, the class called \<open>c\<close>).
\<close>

datatype provider_kind =
    UnknownBlockError
  | InvalidAccount
  | UnknownAccount
  | NoContractCodeError
  | TooLargeContractStateError
  | UnavailableShardError
  | NoSyncedBlocksError
  | InternalError
  | NoSyncedYetError
  | InvalidTransactionError
  | RPCTimeoutError
  | UnknownAccessKeyError

datatype kind = Provider provider_kind | Action string

text \<open>
  Exceptions as values. \<open>RpcError k body error_json\<close> is the instance of the class \<open>k\<close>
  that \<open>cls(body, error_json=content["error"])\<close> returns; like any exception object it
  is truthy. The remaining constructors are the aiohttp and builtin classes the code names
  or can meet; \<open>TimeoutError\<close> is \<open>asyncio.TimeoutError\<close>, which aiohttp raises when the
  timeout of a request expires.
\<close>

datatype exn =
    RpcNotAvailableError string
  | RpcError kind json json
  | ClientResponseError
  | ClientConnectorError
  | ServerDisconnectedError
  | ConnectionError
  | TimeoutError
  | JSONDecodeError
  | KeyError string
  | TypeError
  | AttributeError
  | OtherException string

text \<open>
  The module \<open>sdk/py_near/exceptions/provider.py\<close> is not among the given sources. What
  the code takes from it is a parameter of the functions that use it: the table
  \<open>ERROR_CODE_TO_EXCEPTION\<close>; which classes are subclasses of \<open>RPCTimeoutError\<close> (for
  \<open>except RPCTimeoutError\<close>, an \<open>isinstance\<close> test); and what the constructor of a class
  does when it is called as \<open>cls(body, error_json=...)\<close>: it raises (\<open>Some e\<close>) or
  it returns the instance (\<open>None\<close>).
\<close>

record exceptions_module =
  ERROR_CODE_TO_EXCEPTION :: "string \<rightharpoonup> kind"
  timeout_subclass :: "kind \<Rightarrow> bool"
  init_raises :: "kind \<Rightarrow> json \<Rightarrow> json \<Rightarrow> exn option"

datatype log_msg =
    RemoveAsyncRpc string
  | RemoveRpcStatus nat string
  | RemoveRpcExc exn
  | NoRpcRechecking
  | RpcErrorMsg exn

text \<open>
  What a run does to the outside: a \<open>GET addr/status\<close>, a \<open>POST\<close> of an envelope to an
  address, a log line, \<open>asyncio.create_task(self.check_available_rpcs())\<close>, and
  \<open>asyncio.sleep\<close>.
\<close>

datatype event =
    Get string
  | Post string json
  | Log log_msg
  | Spawn
  | Sleep nat

fun is_post :: "event \<Rightarrow> bool" where
  "is_post (Post a j) = True"
| "is_post e = False"

fun is_get :: "event \<Rightarrow> bool" where
  "is_get (Get a) = True"
| "is_get e = False"

fun post_addr :: "event \<Rightarrow> string option" where
  "post_addr (Post a j) = Some a"
| "post_addr e = None"

text \<open>\<open>x[k]\<close> for a string key: only a dict can be subscripted by a string.\<close>

fun subscript :: "json \<Rightarrow> string \<Rightarrow> exn + json" where
  "subscript (JDict kvs) k =
     (case map_of kvs k of None \<Rightarrow> Inl (KeyError k) | Some v \<Rightarrow> Inr v)"
| "subscript x k = Inl TypeError"

section \<open>The provider and the outside world\<close>

record provider =
  rpc_addresses :: "string list"
  available_rpcs :: "string list"
  last_rpc_addr_check :: real

text \<open>
  What one \<open>session.get\<close> of \<open>check_available_rpcs\<close> does: it raises, or it answers with a
  status and a text that \<open>json.loads\<close> decodes (\<open>None\<close>: reading or decoding the text
  raises); \<open>latency\<close> is the difference of the two clock readings around it.
\<close>

datatype probe =
    ProbeRaised exn
  | ProbeResponse nat "json option" real

text \<open>
  What one \<open>session.post\<close> of \<open>call_rpc_request\<close> does: it raises, or it answers with a
  status and a text that decodes or not.
\<close>

datatype http_result =
    Raised exn
  | Response nat "json option"

text \<open>
  The world of one call of \<open>call_rpc_request\<close>: the two readings of the clock (lines 93
  and 96), the outcome of the probe of the i-th candidate should the call await a
  refresh, and the outcome of the POST to the i-th endpoint of the ranked list.
\<close>

record env =
  now_check :: real
  now_stamp :: real
  probes :: "nat \<Rightarrow> probe"
  posts :: "nat \<Rightarrow> http_result"

section \<open>check_available_rpcs\<close>

text \<open>
  One turn of the loop over \<open>self._rpc_addresses\<close>: the pair to append, if any, and the
  events. \<open>except Exception\<close> catches whatever the body raises.
\<close>

definition on_probe_exception :: "provider \<Rightarrow> string \<Rightarrow> exn \<Rightarrow> event list" where
  "on_probe_exception s rpc_addr e =
     (if rpc_addr \<in> set (available_rpcs s) then [Log (RemoveRpcExc e)] else [])"

definition on_probe_rejected :: "provider \<Rightarrow> string \<Rightarrow> nat \<Rightarrow> event list" where
  "on_probe_rejected s rpc_addr status =
     (if rpc_addr \<in> set (available_rpcs s)
      then (if status = 200 then [Log (RemoveAsyncRpc rpc_addr)]
            else [Log (RemoveRpcStatus status rpc_addr)])
      else [])"

definition syncing_of :: "json \<Rightarrow> exn + json" where
  "syncing_of data =
     (case subscript data ''sync_info'' of
        Inl e \<Rightarrow> Inl e
      | Inr si \<Rightarrow> subscript si ''syncing'')"

fun probe_one :: "provider \<Rightarrow> string \<Rightarrow> probe \<Rightarrow> (string \<times> real) option \<times> event list" where
  "probe_one s rpc_addr (ProbeRaised e) =
     (None, Get rpc_addr # on_probe_exception s rpc_addr e)"
| "probe_one s rpc_addr (ProbeResponse status text latency) =
     (if status = 200 then
        (case text of
           None \<Rightarrow> (None, Get rpc_addr # on_probe_exception s rpc_addr JSONDecodeError)
         | Some data \<Rightarrow>
             (case syncing_of data of
                Inl e \<Rightarrow> (None, Get rpc_addr # on_probe_exception s rpc_addr e)
              | Inr syncing \<Rightarrow>
                  if \<not> truthy syncing then (Some (rpc_addr, latency), [Get rpc_addr])
                  else (None, Get rpc_addr # on_probe_rejected s rpc_addr status)))
      else (None, Get rpc_addr # on_probe_rejected s rpc_addr status))"

fun probe_loop ::
  "provider \<Rightarrow> (nat \<Rightarrow> probe) \<Rightarrow> nat \<Rightarrow> string list \<Rightarrow> (string \<times> real) list
     \<Rightarrow> (string \<times> real) list \<times> event list" where
  "probe_loop s pr i [] acc = (acc, [])"
| "probe_loop s pr i (rpc_addr # rest) acc =
     (case probe_one s rpc_addr (pr i) of
        (r, ev) \<Rightarrow>
          (case probe_loop s pr (Suc i) rest
                  (case r of None \<Rightarrow> acc | Some p \<Rightarrow> acc @ [p]) of
             (acc', evs) \<Rightarrow> (acc', ev @ evs)))"

text \<open>
  \<open>sorted(available_rpcs, key=lambda x: x[1])\<close> is a stable sort by the latency, as
  \<open>sort_key snd\<close> is.
\<close>

definition check_available_rpcs :: "provider \<Rightarrow> (nat \<Rightarrow> probe) \<Rightarrow> provider \<times> event list" where
  "check_available_rpcs s pr =
     (case probe_loop s pr 0 (rpc_addresses s) [] of
        (acc, evs) \<Rightarrow> (s\<lparr>available_rpcs := map fst (sort_key snd acc)\<rparr>, evs))"

section \<open>call_rpc_request\<close>

definition envelope :: "string \<Rightarrow> json \<Rightarrow> json" where
  "envelope method params =
     JDict [(''method'', JStr method), (''params'', params),
            (''id'', JStr ''dontcare''), (''jsonrpc'', JStr ''2.0'')]"

text \<open>
  The body of the \<open>try\<close>: \<open>session.post\<close>, \<open>r.raise_for_status()\<close> (which raises
  \<open>ClientResponseError\<close> from status 400 on) and \<open>json.loads\<close>.
\<close>

fun attempt :: "http_result \<Rightarrow> exn + json" where
  "attempt (Raised e) = Inl e"
| "attempt (Response status text) =
     (if 400 \<le> status then Inl ClientResponseError
      else (case text of None \<Rightarrow> Inl JSONDecodeError | Some content \<Rightarrow> Inr content))"

text \<open>The classes of the \<open>except\<close> clause of the request loop.\<close>

fun transport_class :: "exn \<Rightarrow> bool" where
  "transport_class (RpcError k body ej) = (k = Provider RPCTimeoutError)"
| "transport_class ClientResponseError = True"
| "transport_class ClientConnectorError = True"
| "transport_class ServerDisconnectedError = True"
| "transport_class ConnectionError = True"
| "transport_class e = False"

text \<open>
  The loop over \<open>self._available_rpcs\<close>; \<open>content\<close> starts as \<open>None\<close>. An exception
  outside the \<open>except\<close> clause leaves the loop and the call.
\<close>

fun request_loop ::
  "(nat \<Rightarrow> http_result) \<Rightarrow> json \<Rightarrow> nat \<Rightarrow> string list \<Rightarrow> (exn + json) \<times> event list" where
  "request_loop po j i [] = (Inr JNull, [])"
| "request_loop po j i (rpc_addr # rest) =
     (case attempt (po i) of
        Inr content \<Rightarrow> (Inr content, [Post rpc_addr j])
      | Inl e \<Rightarrow>
          if transport_class e then
            (case request_loop po j (Suc i) rest of
               (r, evs) \<Rightarrow> (r, Post rpc_addr j # Log (RpcErrorMsg e) # evs))
          else (Inl e, [Post rpc_addr j]))"

text \<open>Lines 92 to 101: the refresh decision.\<close>

definition freshness :: "provider \<Rightarrow> env \<Rightarrow> provider \<times> event list" where
  "freshness s w =
     (if last_rpc_addr_check s < now_check w - 30 \<or> available_rpcs s = [] then
        (let s0 = s\<lparr>last_rpc_addr_check := now_stamp w\<rparr> in
         if available_rpcs s0 \<noteq> [] then (s0, [Spawn])
         else (case check_available_rpcs s0 (probes w) of
                 (s1, evs) \<Rightarrow> (s1, Log NoRpcRechecking # evs)))
      else (s, []))"

definition call_rpc_request ::
  "provider \<Rightarrow> env \<Rightarrow> string \<Rightarrow> json \<Rightarrow> (exn + json) \<times> provider \<times> event list" where
  "call_rpc_request s w method params =
     (case freshness s w of
        (s1, ev1) \<Rightarrow>
          if available_rpcs s1 = [] then
            (Inl (RpcNotAvailableError ''No RPC available''), s1, ev1)
          else
            (case request_loop (posts w) (envelope method params) 0 (available_rpcs s1) of
               (r, ev2) \<Rightarrow> (r, s1, ev1 @ ev2)))"

section \<open>get_error_from_response and json_rpc\<close>

definition PROVIDER_CODE_TO_EXCEPTION :: "string \<rightharpoonup> provider_kind" where
  "PROVIDER_CODE_TO_EXCEPTION =
     map_of [
       (''UNKNOWN_BLOCK'', UnknownBlockError),
       (''INVALID_ACCOUNT'', InvalidAccount),
       (''UNKNOWN_ACCOUNT'', UnknownAccount),
       (''NO_CONTRACT_CODE'', NoContractCodeError),
       (''TOO_LARGE_CONTRACT_STATE'', TooLargeContractStateError),
       (''UNAVAILABLE_SHARD'', UnavailableShardError),
       (''NO_SYNCED_BLOCKS'', NoSyncedBlocksError),
       (''INTERNAL_ERROR'', InternalError),
       (''NOT_SYNCED_YET'', NoSyncedYetError),
       (''INVALID_TRANSACTION'', InvalidTransactionError),
       (''TIMEOUT_ERROR'', RPCTimeoutError),
       (''UNKNOWN_ACCESS_KEY'', UnknownAccessKeyError)]"

text \<open>\<open>d.get(k, default)\<close>: only a dict has the method.\<close>

fun dict_get :: "json \<Rightarrow> string \<Rightarrow> json \<Rightarrow> exn + json" where
  "dict_get (JDict kvs) k d = (case map_of kvs k of None \<Rightarrow> Inr d | Some v \<Rightarrow> Inr v)"
| "dict_get x k d = Inl AttributeError"

text \<open>
  \<open>PROVIDER_CODE_TO_EXCEPTION.get(error_code, InternalError)\<close>: a list or a dict is not
  hashable; any other value that is not one of the keys gives the default.
\<close>

fun provider_class :: "json \<Rightarrow> exn + provider_kind" where
  "provider_class (JStr name) =
     (case PROVIDER_CODE_TO_EXCEPTION name of None \<Rightarrow> Inr InternalError | Some k \<Rightarrow> Inr k)"
| "provider_class (JList xs) = Inl TypeError"
| "provider_class (JDict kvs) = Inl TypeError"
| "provider_class x = Inr InternalError"

text \<open>\<open>cls(body, error_json=content["error"])\<close>.\<close>

definition construct :: "exceptions_module \<Rightarrow> kind \<Rightarrow> json \<Rightarrow> json \<Rightarrow> exn + exn" where
  "construct xm cls body ej =
     (case init_raises xm cls body ej of
        Some e \<Rightarrow> Inl e
      | None \<Rightarrow> Inr (RpcError cls body ej))"

text \<open>
  The \<open>while True\<close> loop, entered with the error built so far. Each turn that goes on
  takes the value under the first key of the dict, which is a proper part of \<open>body\<close>, and
  calls the class that the table holds for the key on that value; an exception of that
  call leaves the loop and the function.
\<close>

fun walk :: "exceptions_module \<Rightarrow> json \<Rightarrow> exn \<Rightarrow> json \<Rightarrow> exn + exn" where
  "walk xm ej error (JDict []) = Inr error"
| "walk xm ej error (JDict ((key, v) # kvs)) =
     (case ERROR_CODE_TO_EXCEPTION xm key of
        Some cls \<Rightarrow>
          (case construct xm cls v ej of
             Inl e \<Rightarrow> Inl e
           | Inr refined \<Rightarrow> walk xm ej refined v)
      | None \<Rightarrow> Inr error)"
| "walk xm ej error body = Inr error"

text \<open>\<open>s in t\<close> for two strings.\<close>

fun starts_with :: "string \<Rightarrow> string \<Rightarrow> bool" where
  "starts_with [] t = True"
| "starts_with (c # s) [] = False"
| "starts_with (c # s) (d # t) = (c = d \<and> starts_with s t)"

fun contains :: "string \<Rightarrow> string \<Rightarrow> bool" where
  "contains s [] = (s = [])"
| "contains s (d # t) = (starts_with s (d # t) \<or> contains s t)"

text \<open>
  The result is \<open>None\<close> (no \<open>"error"\<close> in the content), the classified error, or an
  exception of Python's when the content does not have the shape the code reads.
\<close>

definition classify :: "exceptions_module \<Rightarrow> json \<Rightarrow> exn + exn option" where
  "classify xm err =
     (case dict_get err ''cause'' (JDict []) of
        Inl e \<Rightarrow> Inl e
      | Inr cause \<Rightarrow>
          (case dict_get cause ''name'' (JStr '''') of
             Inl e \<Rightarrow> Inl e
           | Inr error_code \<Rightarrow>
               (case subscript err ''data'' of
                  Inl e \<Rightarrow> Inl e
                | Inr body \<Rightarrow>
                    (case provider_class error_code of
                       Inl e \<Rightarrow> Inl e
                     | Inr cls \<Rightarrow>
                         (case construct xm (Provider cls) body err of
                            Inl e \<Rightarrow> Inl e
                          | Inr error \<Rightarrow>
                              (case walk xm err error body of
                                 Inl e \<Rightarrow> Inl e
                               | Inr refined \<Rightarrow> Inr (Some refined)))))))"

fun get_error_from_response :: "exceptions_module \<Rightarrow> json \<Rightarrow> exn + exn option" where
  "get_error_from_response xm (JDict kvs) =
     (case map_of kvs ''error'' of
        None \<Rightarrow> Inr None
      | Some err \<Rightarrow> classify xm err)"
| "get_error_from_response xm (JList xs) =
     (if JStr ''error'' \<in> set xs then Inl TypeError else Inr None)"
| "get_error_from_response xm (JStr t) =
     (if contains ''error'' t then Inl TypeError else Inr None)"
| "get_error_from_response xm x = Inl TypeError"

definition json_rpc ::
  "exceptions_module \<Rightarrow> provider \<Rightarrow> env \<Rightarrow> string \<Rightarrow> json
     \<Rightarrow> (exn + json) \<times> provider \<times> event list" where
  "json_rpc xm s w method params =
     (case call_rpc_request s w method params of
        (Inl e, s1, evs) \<Rightarrow> (Inl e, s1, evs)
      | (Inr content, s1, evs) \<Rightarrow>
          if \<not> truthy content then (Inl (RpcNotAvailableError ''RPC not available''), s1, evs)
          else
            (case get_error_from_response xm content of
               Inl e \<Rightarrow> (Inl e, s1, evs)
             | Inr (Some error) \<Rightarrow> (Inl error, s1, evs)
             | Inr None \<Rightarrow> (subscript content ''result'', s1, evs)))"

text \<open>
  A module for concrete runs: no action-level table entry, no subclass of
  \<open>RPCTimeoutError\<close>, and constructors that return.
\<close>

definition plain_module :: exceptions_module where
  "plain_module =
     \<lparr>ERROR_CODE_TO_EXCEPTION = Map.empty, timeout_subclass = (\<lambda>k. False),
      init_raises = (\<lambda>k body ej. None)\<rparr>"

section \<open>Reading check_available_rpcs\<close>

text \<open>
  What the loop of \<open>check_available_rpcs\<close> accepts, read off the code: status 200, a
  text that decodes, and \<open>not data["sync_info"]["syncing"]\<close>, that is a value there that
  is falsy (\<open>false\<close>, \<open>null\<close>, \<open>0\<close>, an empty string, list or dict).
\<close>

definition healthy :: "probe \<Rightarrow> bool" where
  "healthy p =
     (case p of
        ProbeRaised e \<Rightarrow> False
      | ProbeResponse status text latency \<Rightarrow>
          status = 200 \<and>
          (case text of
             None \<Rightarrow> False
           | Some data \<Rightarrow>
               (case syncing_of data of Inl e \<Rightarrow> False | Inr syncing \<Rightarrow> \<not> truthy syncing)))"

text \<open>
  The reading of the specification: status 200 and a body that reports
  \<open>sync_info.syncing == false\<close>.
\<close>

definition reports_not_syncing :: "probe \<Rightarrow> bool" where
  "reports_not_syncing p =
     (case p of
        ProbeRaised e \<Rightarrow> False
      | ProbeResponse status text latency \<Rightarrow>
          status = 200 \<and>
          (case text of
             None \<Rightarrow> False
           | Some data \<Rightarrow> syncing_of data = Inr (JBool False)))"

fun latency_of :: "probe \<Rightarrow> real" where
  "latency_of (ProbeResponse status text latency) = latency"
| "latency_of (ProbeRaised e) = 0"

fun is_log :: "event \<Rightarrow> bool" where
  "is_log (Log m) = True"
| "is_log e = False"

fun get_addr :: "event \<Rightarrow> string option" where
  "get_addr (Get a) = Some a"
| "get_addr e = None"

section \<open>Reading get_error_from_response\<close>

text \<open>
  The classification as the specification words it. The provider-level kind is the entry
  of the cause name in the fixed mapping, the generic internal error when the name is
  not a key of it (or is not a string at all).
\<close>

fun provider_kind_of :: "json \<Rightarrow> provider_kind" where
  "provider_kind_of (JStr name) =
     (case PROVIDER_CODE_TO_EXCEPTION name of None \<Rightarrow> InternalError | Some k \<Rightarrow> k)"
| "provider_kind_of x = InternalError"

text \<open>
  The keys met by going down the body, each time into the value under the first key of
  a dict that is not empty; the walk follows them while they are keys of the
  action-level table.
\<close>

fun key_chain :: "json \<Rightarrow> string list" where
  "key_chain (JDict ((key, v) # kvs)) = key # key_chain v"
| "key_chain x = []"

definition refining_keys :: "exceptions_module \<Rightarrow> json \<Rightarrow> string list" where
  "refining_keys xm body =
     takeWhile (\<lambda>key. ERROR_CODE_TO_EXCEPTION xm key \<noteq> None) (key_chain body)"

fun descend :: "nat \<Rightarrow> json \<Rightarrow> json" where
  "descend (Suc n) (JDict ((key, v) # kvs)) = descend n v"
| "descend n x = x"

text \<open>
  The most specific kind the walk reaches: the class of the last refining key, or the
  provider-level kind when there is none.
\<close>

definition most_specific :: "exceptions_module \<Rightarrow> provider_kind \<Rightarrow> json \<Rightarrow> kind" where
  "most_specific xm base body =
     (case refining_keys xm body of
        [] \<Rightarrow> Provider base
      | key # keys \<Rightarrow> the (ERROR_CODE_TO_EXCEPTION xm (last (key # keys))))"

text \<open>
  The constructor calls of a classification, in the order the code makes them: the
  provider-level class on the data body, then the class of each refining key on the
  value under that key.
\<close>

definition refinements :: "exceptions_module \<Rightarrow> json \<Rightarrow> (kind \<times> json) list" where
  "refinements xm body =
     map (\<lambda>i. (the (ERROR_CODE_TO_EXCEPTION xm (refining_keys xm body ! i)),
                descend (Suc i) body))
         [0..<length (refining_keys xm body)]"

definition constructions ::
  "exceptions_module \<Rightarrow> provider_kind \<Rightarrow> json \<Rightarrow> (kind \<times> json) list" where
  "constructions xm base body = (Provider base, body) # refinements xm body"

text \<open>The first of a list of constructor calls that raises, with what it raises.\<close>

fun first_raise :: "exceptions_module \<Rightarrow> json \<Rightarrow> (kind \<times> json) list \<Rightarrow> exn option" where
  "first_raise xm ej [] = None"
| "first_raise xm ej ((cls, b) # rest) =
     (case init_raises xm cls b ej of
        Some e \<Rightarrow> Some e
      | None \<Rightarrow> first_raise xm ej rest)"

section \<open>Sequences of calls and the refresh as a task\<close>

text \<open>
  What the refresh decision of one call was, read off its events: \<open>create_task\<close> gives
  \<open>Spawn\<close>, the awaited refresh starts with the warning.
\<close>

datatype refresh_kind = NoRefresh | Background | Awaited

definition refresh_kind_of :: "event list \<Rightarrow> refresh_kind" where
  "refresh_kind_of evs =
     (if Spawn \<in> set evs then Background
      else if Log NoRpcRechecking \<in> set evs then Awaited
      else NoRefresh)"

record call_record =
  at_check :: real
  at_stamp :: real
  refresh :: refresh_kind

text \<open>
  A run of the provider: dispatch calls, and between them refreshes that complete (a task
  spawned by an earlier call, or a call of \<open>check_available_rpcs\<close> by the user). The run
  keeps, for every dispatch call, the two clock readings and the refresh decision.
\<close>

datatype sys_action =
    Call env string json
  | RefreshDone "nat \<Rightarrow> probe"

fun run_calls :: "provider \<Rightarrow> sys_action list \<Rightarrow> call_record list" where
  "run_calls s [] = []"
| "run_calls s (Call w method params # rest) =
     (case call_rpc_request s w method params of
        (r, s1, evs) \<Rightarrow>
          \<lparr>at_check = now_check w, at_stamp = now_stamp w, refresh = refresh_kind_of evs\<rparr>
            # run_calls s1 rest)"
| "run_calls s (RefreshDone pr # rest) = run_calls (fst (check_available_rpcs s pr)) rest"

fun clock_readings :: "sys_action list \<Rightarrow> real list" where
  "clock_readings [] = []"
| "clock_readings (Call w method params # rest) = now_check w # now_stamp w # clock_readings rest"
| "clock_readings (RefreshDone pr # rest) = clock_readings rest"

text \<open>
  \<open>check_available_rpcs\<close> as a task of the event loop. Other tasks run only while it
  awaits, so it advances in steps: one per turn of its loop (the local variables are the
  position and the list under construction), and a last one for the assignment to
  \<open>self._available_rpcs\<close>. Each step reads the provider as it is then.
\<close>

datatype task = Running nat "(string \<times> real) list" | Done

fun refresh_step :: "(nat \<Rightarrow> probe) \<Rightarrow> provider \<Rightarrow> task \<Rightarrow> provider \<times> task \<times> event list" where
  "refresh_step pr g (Running i acc) =
     (if i < length (rpc_addresses g) then
        (case probe_one g (rpc_addresses g ! i) (pr i) of
           (r, ev) \<Rightarrow> (g, Running (Suc i) (case r of None \<Rightarrow> acc | Some p \<Rightarrow> acc @ [p]), ev))
      else (g\<lparr>available_rpcs := map fst (sort_key snd acc)\<rparr>, Done, []))"
| "refresh_step pr g Done = (g, Done, [])"

text \<open>
  A schedule interleaves the steps of the refresh with the one write a concurrent
  dispatch call makes to the provider while the list is not empty: line 96 sets the time
  stamp. The run gives the provider after every action, which is what a dispatch call
  scheduled there reads, and the events of the refresh.
\<close>

datatype sched = RefreshStep | DispatchStamp real

fun run_sched ::
  "(nat \<Rightarrow> probe) \<Rightarrow> sched list \<Rightarrow> provider \<Rightarrow> task \<Rightarrow> (provider list) \<times> event list" where
  "run_sched pr [] g t = ([], [])"
| "run_sched pr (RefreshStep # rest) g t =
     (case refresh_step pr g t of
        (g1, t1, ev) \<Rightarrow>
          (case run_sched pr rest g1 t1 of (gs, evs) \<Rightarrow> (g1 # gs, ev @ evs)))"
| "run_sched pr (DispatchStamp now # rest) g t =
     (case run_sched pr rest (g\<lparr>last_rpc_addr_check := now\<rparr>) t of
        (gs, evs) \<Rightarrow> (g\<lparr>last_rpc_addr_check := now\<rparr> # gs, evs))"

text \<open>
  What the refresh task has collected when it is at position \<open>i\<close>, and the invariant of
  a schedule that started the task on the provider \<open>s\<close>: the candidates never change,
  and until the task is done the available list is the one of \<open>s\<close>.
\<close>

definition collected :: "string list \<Rightarrow> (nat \<Rightarrow> probe) \<Rightarrow> nat \<Rightarrow> (string \<times> real) list" where
  "collected cands pr i =
     map (\<lambda>k. (cands ! k, latency_of (pr k))) (filter (\<lambda>k. healthy (pr k)) [0..<i])"

definition task_inv :: "provider \<Rightarrow> (nat \<Rightarrow> probe) \<Rightarrow> provider \<Rightarrow> task \<Rightarrow> bool" where
  "task_inv s pr g t =
     (rpc_addresses g = rpc_addresses s \<and>
      (case t of
         Running i acc \<Rightarrow>
           i \<le> length (rpc_addresses s) \<and> acc = collected (rpc_addresses s) pr i \<and>
           available_rpcs g = available_rpcs s
       | Done \<Rightarrow>
           available_rpcs g = available_rpcs s \<or>
           available_rpcs g = available_rpcs (fst (check_available_rpcs s pr))))"

section \<open>get_tx and send_tx_and_wait\<close>

text \<open>
  \<open>TransactionResult(**result)\<close> either raises or builds an object. The polling loop uses
  nothing of the constructor but that: in \<open>get_tx\<close> it is the parameter \<open>build\<close>, and what
  is proved of the loop holds for every constructor. An object of the class is always
  truthy (the class defines neither \<open>__bool__\<close> nor \<open>__len__\<close>), so \<open>if result\<close> holds
  for every object built.
\<close>

definition get_tx ::
  "(json \<Rightarrow> exn + 'r) \<Rightarrow> exceptions_module \<Rightarrow> provider \<Rightarrow> env \<Rightarrow> string \<Rightarrow> string
     \<Rightarrow> (exn + 'r) \<times> provider \<times> event list" where
  "get_tx build xm s w tx_hash tx_recipient_id =
     (case json_rpc xm s w ''tx'' (JList [JStr tx_hash, JStr tx_recipient_id]) of
        (Inl e, s1, evs) \<Rightarrow> (Inl e, s1, evs)
      | (Inr v, s1, evs) \<Rightarrow> (build v, s1, evs))"

subsection \<open>The constructor of models.py\<close>

text \<open>
  The constructor as \<open>models.py\<close> has it, for the runs that are evaluated below. A call
  \<open>f(**d)\<close> needs a dict whose keys are parameter names of \<open>f\<close>; \<open>for x in v\<close> goes over
  the items of a list, the keys of a dict and the characters of a string.
\<close>

definition then_exn :: "exn + 'a \<Rightarrow> ('a \<Rightarrow> exn + 'b) \<Rightarrow> exn + 'b" where
  "then_exn r f = (case r of Inl e \<Rightarrow> Inl e | Inr v \<Rightarrow> f v)"

fun map_exn :: "('a \<Rightarrow> exn + 'b) \<Rightarrow> 'a list \<Rightarrow> exn + 'b list" where
  "map_exn f [] = Inr []"
| "map_exn f (x # xs) =
     (case f x of
        Inl e \<Rightarrow> Inl e
      | Inr y \<Rightarrow> (case map_exn f xs of Inl e \<Rightarrow> Inl e | Inr ys \<Rightarrow> Inr (y # ys)))"

fun py_iter :: "json \<Rightarrow> exn + json list" where
  "py_iter (JList xs) = Inr xs"
| "py_iter (JDict kvs) = Inr (map (\<lambda>kv. JStr (fst kv)) kvs)"
| "py_iter (JStr t) = Inr (map (\<lambda>c. JStr [c]) t)"
| "py_iter v = Inl TypeError"

definition has_keys :: "(string \<times> json) list \<Rightarrow> string list \<Rightarrow> bool" where
  "has_keys kvs names = list_all (\<lambda>n. map_of kvs n \<noteq> None) names"

definition only_keys :: "(string \<times> json) list \<Rightarrow> string list \<Rightarrow> bool" where
  "only_keys kvs names = list_all (\<lambda>k. k \<in> set names) (map fst kvs)"

text \<open>
  \<open>ReceiptOutcome.__init__\<close>: six reads \<open>data["outcome"][field]\<close>, in this order.
\<close>

datatype outcome_obj = OutcomeObj json json json json json json

definition outcome_field :: "json \<Rightarrow> string \<Rightarrow> exn + json" where
  "outcome_field data f = then_exn (subscript data ''outcome'') (\<lambda>oc. subscript oc f)"

definition ReceiptOutcome_init :: "json \<Rightarrow> exn + outcome_obj" where
  "ReceiptOutcome_init data =
     then_exn (outcome_field data ''logs'') (\<lambda>a1.
     then_exn (outcome_field data ''metadata'') (\<lambda>a2.
     then_exn (outcome_field data ''receipt_ids'') (\<lambda>a3.
     then_exn (outcome_field data ''status'') (\<lambda>a4.
     then_exn (outcome_field data ''tokens_burnt'') (\<lambda>a5.
     then_exn (outcome_field data ''gas_burnt'') (\<lambda>a6.
       Inr (OutcomeObj a1 a2 a3 a4 a5 a6)))))))"

text \<open>
  \<open>ReceiptAction.build\<close>: the action \<open>"CreateAccount"\<close> is built at once. Every other
  action is decoded through its first key, with base64 and JSON decoding of the
  arguments of a function call; that part is the parameter \<open>other\<close>.
\<close>

datatype 'a action_obj = CreateAccountAction | OtherAction 'a

definition ReceiptAction_build :: "(json \<Rightarrow> exn + 'a) \<Rightarrow> json \<Rightarrow> exn + 'a action_obj" where
  "ReceiptAction_build other data =
     (if data = JStr ''CreateAccount'' then Inr CreateAccountAction
      else then_exn (other data) (\<lambda>a. Inr (OtherAction a)))"

text \<open>
  \<open>TransactionData(**transaction)\<close>: seven named parameters and \<open>**kargs\<close>, so further
  keys are accepted (but not \<open>self\<close>); the body builds the actions first.
\<close>

datatype 'a transaction_obj = TransactionObj "'a action_obj list" json json json json json json

definition TransactionData_init ::
  "(json \<Rightarrow> exn + 'a) \<Rightarrow> json \<Rightarrow> exn + 'a transaction_obj" where
  "TransactionData_init other tx =
     (case tx of
        JDict kvs \<Rightarrow>
          if has_keys kvs [''hash'', ''public_key'', ''receiver_id'', ''signature'',
                           ''signer_id'', ''nonce'', ''actions'']
             \<and> map_of kvs ''self'' = None
          then
            then_exn (py_iter (the (map_of kvs ''actions''))) (\<lambda>items.
            then_exn (map_exn (ReceiptAction_build other) items) (\<lambda>actions.
              Inr (TransactionObj actions
                     (the (map_of kvs ''nonce'')) (the (map_of kvs ''signer_id''))
                     (the (map_of kvs ''public_key'')) (the (map_of kvs ''receiver_id''))
                     (the (map_of kvs ''signature'')) (the (map_of kvs ''hash'')))))
          else Inl TypeError
      | v \<Rightarrow> Inl TypeError)"

text \<open>
  \<open>TransactionResult(**result)\<close>: exactly the four parameters, no \<open>**kargs\<close>. The body
  builds the transaction, the transaction outcome, and then one receipt outcome for
  every item of \<open>receipts_outcome\<close>.
\<close>

datatype 'a result_obj = ResultObj json "'a transaction_obj" outcome_obj "outcome_obj list"

definition TransactionResult_init ::
  "(json \<Rightarrow> exn + 'a) \<Rightarrow> json \<Rightarrow> exn + 'a result_obj" where
  "TransactionResult_init other result =
     (case result of
        JDict kvs \<Rightarrow>
          if has_keys kvs [''receipts_outcome'', ''transaction_outcome'', ''transaction'',
                           ''status'']
             \<and> only_keys kvs [''receipts_outcome'', ''transaction_outcome'', ''transaction'',
                              ''status'']
          then
            then_exn (TransactionData_init other (the (map_of kvs ''transaction''))) (\<lambda>t.
            then_exn (ReceiptOutcome_init (the (map_of kvs ''transaction_outcome''))) (\<lambda>t_o.
            then_exn (py_iter (the (map_of kvs ''receipts_outcome''))) (\<lambda>items.
            then_exn (map_exn ReceiptOutcome_init items) (\<lambda>ros.
              Inr (ResultObj (the (map_of kvs ''status'')) t t_o ros)))))
          else Inl TypeError
      | v \<Rightarrow> Inl TypeError)"

subsection \<open>The polling loop\<close>

text \<open>
  The world of one turn of the polling loop: a refresh that completes while the call
  sleeps, if any, and the world of the \<open>get_tx\<close> call.
\<close>

record poll_env =
  during_sleep :: "(nat \<Rightarrow> probe) option"
  lookup :: env

definition after_sleep :: "provider \<Rightarrow> (nat \<Rightarrow> probe) option \<Rightarrow> provider" where
  "after_sleep s b = (case b of None \<Rightarrow> s | Some pr \<Rightarrow> fst (check_available_rpcs s pr))"

definition poll_step ::
  "(json \<Rightarrow> exn + 'r) \<Rightarrow> exceptions_module \<Rightarrow> (nat \<Rightarrow> poll_env) \<Rightarrow> string \<Rightarrow> string
     \<Rightarrow> nat \<Rightarrow> provider \<Rightarrow> (exn + 'r) \<times> provider \<times> event list" where
  "poll_step build xm ws trx_hash receiver_id i s =
     get_tx build xm (after_sleep s (during_sleep (ws i))) (lookup (ws i)) trx_hash receiver_id"

text \<open>
  The \<open>for\<close> loop of \<open>send_tx_and_wait\<close> with \<open>n\<close> turns left, at turn \<open>i\<close>: the sleep,
  then the lookup. Both \<open>except\<close> clauses (\<open>InternalError\<close>, then \<open>Exception\<close>) go on with
  the next turn.
\<close>

fun poll ::
  "(json \<Rightarrow> exn + 'r) \<Rightarrow> exceptions_module \<Rightarrow> (nat \<Rightarrow> poll_env) \<Rightarrow> string \<Rightarrow> string
     \<Rightarrow> nat \<Rightarrow> nat \<Rightarrow> provider \<Rightarrow> 'r option \<times> provider \<times> event list" where
  "poll build xm ws trx_hash receiver_id 0 i s = (None, s, [])"
| "poll build xm ws trx_hash receiver_id (Suc n) i s =
     (case poll_step build xm ws trx_hash receiver_id i s of
        (Inl e, s1, evs) \<Rightarrow>
          (case poll build xm ws trx_hash receiver_id n (Suc i) s1 of
             (res, s2, evs2) \<Rightarrow> (res, s2, Sleep 3 # evs @ evs2))
      | (Inr result, s1, evs) \<Rightarrow> (Some result, s1, Sleep 3 # evs))"

text \<open>
  \<open>except RPCTimeoutError\<close>: the error is an instance of the class or of a subclass of
  it, whichever way the classification reached that class.
\<close>

fun is_rpc_timeout :: "exceptions_module \<Rightarrow> exn \<Rightarrow> bool" where
  "is_rpc_timeout xm (RpcError k body ej) = (k = Provider RPCTimeoutError \<or> timeout_subclass xm k)"
| "is_rpc_timeout xm e = False"

text \<open>\<open>if receiver_id and trx_hash\<close> for two optional strings.\<close>

fun supplied :: "string option \<Rightarrow> bool" where
  "supplied None = False"
| "supplied (Some t) = (t \<noteq> [])"

datatype 'r sent = Committed json | Polled 'r

text \<open>
  \<open>TIMEOUT_WAIT_RPC\<close> is a constant of \<open>constants.py\<close>, which is not among the given
  sources: it is the parameter \<open>TIMEOUT_WAIT_RPC\<close>. The \<open>timeout\<close> argument only travels
  to \<open>session.post\<close>, whose outcome is the world's.
\<close>

definition send_tx_and_wait ::
  "(json \<Rightarrow> exn + 'r) \<Rightarrow> exceptions_module \<Rightarrow> int \<Rightarrow> provider \<Rightarrow> env \<Rightarrow> (nat \<Rightarrow> poll_env)
     \<Rightarrow> string \<Rightarrow> string option \<Rightarrow> string option
     \<Rightarrow> (exn + 'r sent) \<times> provider \<times> event list" where
  "send_tx_and_wait build xm TIMEOUT_WAIT_RPC s w ws signed_tx trx_hash receiver_id =
     (case json_rpc xm s w ''broadcast_tx_commit'' (JList [JStr signed_tx]) of
        (Inr v, s1, evs) \<Rightarrow> (Inr (Committed v), s1, evs)
      | (Inl e, s1, evs) \<Rightarrow>
          if is_rpc_timeout xm e then
            (if supplied receiver_id \<and> supplied trx_hash then
               (case poll build xm ws (the trx_hash) (the receiver_id)
                          (nat (TIMEOUT_WAIT_RPC div 3)) 0 s1 of
                  (Some result, s2, evs2) \<Rightarrow> (Inr (Polled result), s2, evs @ evs2)
                | (None, s2, evs2) \<Rightarrow> (Inl e, s2, evs @ evs2))
             else (Inl e, s1, evs))
          else (Inl e, s1, evs))"

text \<open>
  The provider before the \<open>j\<close>-th further turn of the polling loop that is at turn \<open>i\<close>
  in state \<open>s\<close>, what the lookup of that turn gives, and its events.
\<close>

fun poll_state ::
  "(json \<Rightarrow> exn + 'r) \<Rightarrow> exceptions_module \<Rightarrow> (nat \<Rightarrow> poll_env) \<Rightarrow> string \<Rightarrow> string
     \<Rightarrow> nat \<Rightarrow> provider \<Rightarrow> nat \<Rightarrow> provider" where
  "poll_state build xm ws trx_hash receiver_id i s 0 = s"
| "poll_state build xm ws trx_hash receiver_id i s (Suc j) =
     poll_state build xm ws trx_hash receiver_id (Suc i)
       (fst (snd (poll_step build xm ws trx_hash receiver_id i s))) j"

definition poll_outcome ::
  "(json \<Rightarrow> exn + 'r) \<Rightarrow> exceptions_module \<Rightarrow> (nat \<Rightarrow> poll_env) \<Rightarrow> string \<Rightarrow> string
     \<Rightarrow> nat \<Rightarrow> provider \<Rightarrow> nat \<Rightarrow> exn + 'r" where
  "poll_outcome build xm ws trx_hash receiver_id i s j =
     fst (poll_step build xm ws trx_hash receiver_id (i + j)
            (poll_state build xm ws trx_hash receiver_id i s j))"

definition poll_events ::
  "(json \<Rightarrow> exn + 'r) \<Rightarrow> exceptions_module \<Rightarrow> (nat \<Rightarrow> poll_env) \<Rightarrow> string \<Rightarrow> string
     \<Rightarrow> nat \<Rightarrow> provider \<Rightarrow> nat \<Rightarrow> event list" where
  "poll_events build xm ws trx_hash receiver_id i s j =
     snd (snd (poll_step build xm ws trx_hash receiver_id (i + j)
                 (poll_state build xm ws trx_hash receiver_id i s j)))"

fun is_sleep :: "event \<Rightarrow> bool" where
  "is_sleep (Sleep n) = True"
| "is_sleep e = False"

text \<open>
  The reading of the specification of what the polling loop may swallow: the internal
  error classification, and transient failures, which are the failures to get a reply
  (no RPC available, the transport classes, a timeout, a body that is not JSON). A
  classified RPC-level error of another kind is to be surfaced to the caller, and a
  reply that the constructor refuses (\<open>TypeError\<close>, \<open>KeyError\<close>, \<open>AttributeError\<close>) is
  refused again at every turn.
\<close>

fun retryable_per_spec :: "exn \<Rightarrow> bool" where
  "retryable_per_spec (RpcError k body ej) = (k = Provider InternalError)"
| "retryable_per_spec (KeyError k) = False"
| "retryable_per_spec TypeError = False"
| "retryable_per_spec AttributeError = False"
| "retryable_per_spec (OtherException n) = False"
| "retryable_per_spec e = True"

section \<open>TransactionResult and its logs\<close>

text \<open>
  The lists of log lines are Python list objects that \<open>logs\<close> mutates, and the list it
  returns is one of them: a list object is a reference into a store, and
  \<open>list.extend\<close> updates the store at the reference. The other fields hold the decoded
  values that \<open>logs\<close> does not touch. The field \<open>status\<close> of \<open>TransactionResult\<close> is
  \<open>tx_status\<close> here and its property \<open>logs\<close> is \<open>TransactionResult_logs\<close>, the names
  \<open>status\<close> and \<open>logs\<close> being the fields of \<open>ReceiptOutcome\<close>.
\<close>

type_synonym ref = nat

type_synonym store = "ref \<Rightarrow> string list"

record ReceiptOutcome =
  logs :: ref
  metadata :: json
  receipt_ids :: json
  status :: json
  tokens_burnt :: json
  gas_burnt :: json

record TransactionResult =
  receipt_outcome :: "ReceiptOutcome list"
  transaction_outcome :: ReceiptOutcome
  tx_status :: json
  transaction :: json

text \<open>\<open>logs.extend(ro.logs)\<close>, where \<open>logs\<close> is the reference \<open>l\<close>.\<close>

definition list_extend :: "ref \<Rightarrow> ref \<Rightarrow> store \<Rightarrow> store" where
  "list_extend l r h = h(l := h l @ h r)"

text \<open>
  The property \<open>TransactionResult.logs\<close>: the reference it returns and the store it
  leaves.
\<close>

definition TransactionResult_logs :: "store \<Rightarrow> TransactionResult \<Rightarrow> ref \<times> store" where
  "TransactionResult_logs h tr =
     (let l = logs (transaction_outcome tr)
      in (l, fold (\<lambda>ro. list_extend l (logs ro)) (receipt_outcome tr) h))"

section \<open>Dispatch: rank order, failover, guards\<close>

lemma request_loop_posts_prefix:
  "\<exists>k\<le>length as. List.map_filter post_addr (snd (request_loop po j i as)) = take k as"
proof (induction as arbitrary: i)
  case Nil
  then show ?case by simp
next
  case (Cons a as)
  show ?case
  proof (cases "attempt (po i)")
    case (Inr c)
    then have "List.map_filter post_addr (snd (request_loop po j i (a # as))) = take 1 (a # as)"
      by simp
    then show ?thesis by (intro exI[of _ 1]) simp
  next
    case (Inl e)
    show ?thesis
    proof (cases "transport_class e")
      case False
      with Inl have "List.map_filter post_addr (snd (request_loop po j i (a # as))) = take 1 (a # as)"
        by simp
      then show ?thesis by (intro exI[of _ 1]) simp
    next
      case True
      from Cons.IH[of "Suc i"] obtain k where k: "k \<le> length as"
        "List.map_filter post_addr (snd (request_loop po j (Suc i) as)) = take k as" by blast
      with Inl True have "List.map_filter post_addr (snd (request_loop po j i (a # as))) = take (Suc k) (a # as)"
        by (simp add: case_prod_unfold)
      with k(1) show ?thesis by (intro exI[of _ "Suc k"]) simp
    qed
  qed
qed

lemma request_loop_success:
  "n < length as \<Longrightarrow>
   (\<forall>m<n. \<exists>e. attempt (po (i + m)) = Inl e \<and> transport_class e) \<Longrightarrow>
   attempt (po (i + n)) = Inr content \<Longrightarrow>
   fst (request_loop po j i as) = Inr content \<and>
   List.map_filter post_addr (snd (request_loop po j i as)) = take (Suc n) as"
proof (induction as arbitrary: i n)
  case Nil
  then show ?case by simp
next
  case (Cons a as)
  show ?case
  proof (cases n)
    case 0
    with Cons.prems show ?thesis by simp
  next
    case (Suc n')
    from Cons.prems(2) Suc obtain e where e: "attempt (po i) = Inl e" "transport_class e"
      by (metis add.right_neutral zero_less_Suc)
    have a2: "\<forall>m<n'. \<exists>e. attempt (po (Suc i + m)) = Inl e \<and> transport_class e"
      using Cons.prems(2) Suc by (metis Suc_less_eq add_Suc_shift)
    have a3: "attempt (po (Suc i + n')) = Inr content"
      using Cons.prems(3) Suc by simp
    have a1: "n' < length as" using Cons.prems(1) Suc by simp
    from a1 a2 a3 have IH: "fst (request_loop po j (Suc i) as) = Inr content \<and>
      List.map_filter post_addr (snd (request_loop po j (Suc i) as)) = take (Suc n') as"
      by (rule Cons.IH)
    with e Suc show ?thesis
      by (simp add: case_prod_unfold)
  qed
qed

lemma freshness_nonempty:
  "available_rpcs s \<noteq> [] \<Longrightarrow> available_rpcs (fst (freshness s w)) = available_rpcs s \<and>
     List.map_filter post_addr (snd (freshness s w)) = []"
  by (simp add: freshness_def Let_def)

lemma map_filter_append: "List.map_filter f (xs @ ys) = List.map_filter f xs @ List.map_filter f ys"
  by (simp add: List.map_filter_def)

lemma request_loop_all_fail:
  "(\<forall>m<length as. \<exists>e. attempt (po (i + m)) = Inl e \<and> transport_class e) \<Longrightarrow>
   request_loop po j i as =
     (Inr JNull,
      concat (map (\<lambda>(m, a). [Post a j, Log (RpcErrorMsg (projl (attempt (po m))))])
                  (enumerate i as)))"
proof (induction as arbitrary: i)
  case Nil
  then show ?case by simp
next
  case (Cons a as)
  from Cons.prems obtain e where e: "attempt (po i) = Inl e" "transport_class e"
    by (metis add.right_neutral length_greater_0_conv list.distinct(1))
  have "\<forall>m<length as. \<exists>e. attempt (po (Suc i + m)) = Inl e \<and> transport_class e"
    using Cons.prems by (metis Suc_less_eq add_Suc_shift length_Cons)
  from Cons.IH[OF this] e show ?case by simp
qed

lemma probe_one_no_post: "filter is_post (snd (probe_one s a p)) = []"
  by (cases p)
     (auto simp: on_probe_exception_def on_probe_rejected_def split: option.splits sum.splits)

lemma probe_loop_no_post: "filter is_post (snd (probe_loop s pr i as acc)) = []"
proof (induction as arbitrary: i acc)
  case Nil
  then show ?case by simp
next
  case (Cons a as)
  then show ?case
    using probe_one_no_post[of s a "pr i"]
    by (simp add: case_prod_unfold)
qed

lemma check_available_rpcs_no_post: "filter is_post (snd (check_available_rpcs s pr)) = []"
  by (simp add: check_available_rpcs_def case_prod_unfold probe_loop_no_post)

lemma request_loop_no_get: "filter is_get (snd (request_loop po j i as)) = []"
  by (induction as arbitrary: i) (auto simp: case_prod_unfold split: sum.splits)

lemma request_loop_posts_within:
  "set (List.map_filter post_addr (snd (request_loop po j i as))) \<subseteq> set as"
  using request_loop_posts_prefix[of as po j i] by (auto dest: in_set_takeD)

text \<open>
  The rank order, for the classes of the \<open>except\<close> clause. A call of
  \<open>call_rpc_request\<close> that finds the available list not empty POSTs to the endpoints in
  the order of the list: the addresses it POSTs to are the first \<open>k\<close> of the list, for
  some \<open>k\<close>. When the endpoint at position \<open>n\<close> (counted from 0, so the \<open>n+1\<close>-th in rank
  order) answers with a decoded body and every endpoint before it fails with a class of
  the \<open>except\<close> clause, the call returns that body, and it has POSTed to the first
  \<open>n+1\<close> endpoints and to no later one.
\<close>

theorem call_rpc_request_rank_order:
  assumes "available_rpcs s \<noteq> []"
  shows "(\<exists>k\<le>length (available_rpcs s).
            List.map_filter post_addr (snd (snd (call_rpc_request s w method params)))
              = take k (available_rpcs s))
       \<and> (\<forall>n content. n < length (available_rpcs s)
            \<and> (\<forall>m<n. \<exists>e. attempt (posts w m) = Inl e \<and> transport_class e)
            \<and> attempt (posts w n) = Inr content
          \<longrightarrow> fst (call_rpc_request s w method params) = Inr content
            \<and> List.map_filter post_addr (snd (snd (call_rpc_request s w method params)))
                = take (Suc n) (available_rpcs s))"
proof -
  obtain s1 ev1 where f: "freshness s w = (s1, ev1)" by (cases "freshness s w")
  with freshness_nonempty[OF assms, of w]
  have s1: "available_rpcs s1 = available_rpcs s" and ev1: "List.map_filter post_addr ev1 = []"
    by simp_all
  obtain r ev2 where l: "request_loop (posts w) (envelope method params) 0 (available_rpcs s) = (r, ev2)"
    by (cases "request_loop (posts w) (envelope method params) 0 (available_rpcs s)")
  have c: "call_rpc_request s w method params = (r, s1, ev1 @ ev2)"
    using f s1 l assms by (simp add: call_rpc_request_def)
  have p1: "\<exists>k\<le>length (available_rpcs s). List.map_filter post_addr ev2 = take k (available_rpcs s)"
    using request_loop_posts_prefix[of "available_rpcs s" "posts w" "envelope method params" 0] l by simp
  have p2: "fst (request_loop (posts w) (envelope method params) 0 (available_rpcs s)) = Inr content \<and>
      List.map_filter post_addr (snd (request_loop (posts w) (envelope method params) 0 (available_rpcs s)))
        = take (Suc n) (available_rpcs s)"
    if "n < length (available_rpcs s)"
       "\<forall>m<n. \<exists>e. attempt (posts w m) = Inl e \<and> transport_class e"
       "attempt (posts w n) = Inr content" for n content
    using request_loop_success[of n "available_rpcs s" "posts w" 0 content "envelope method params"] that
    by simp
  have "List.map_filter post_addr (snd (snd (call_rpc_request s w method params)))
          = List.map_filter post_addr ev2"
    by (simp add: c map_filter_append ev1)
  moreover have "fst (call_rpc_request s w method params) = r" by (simp add: c)
  ultimately show ?thesis
    using p1 p2 l by auto
qed

theorem call_rpc_request_rank_order_witness:
  "available_rpcs \<lparr>rpc_addresses = [''a'', ''b'', ''c''], available_rpcs = [''c'', ''b''],
                   last_rpc_addr_check = 90\<rparr> \<noteq> []
   \<and> fst (call_rpc_request
        \<lparr>rpc_addresses = [''a'', ''b'', ''c''], available_rpcs = [''c'', ''b''],
         last_rpc_addr_check = 90\<rparr>
        \<lparr>now_check = 100, now_stamp = 100, probes = (\<lambda>i. ProbeRaised ConnectionError),
         posts = (\<lambda>i. if i = 0 then Raised ServerDisconnectedError
                        else Response 200 (Some (JDict [(''result'', JInt 7)])))\<rparr>
        ''query'' JNull) = Inr (JDict [(''result'', JInt 7)])
   \<and> List.map_filter post_addr (snd (snd (call_rpc_request
        \<lparr>rpc_addresses = [''a'', ''b'', ''c''], available_rpcs = [''c'', ''b''],
         last_rpc_addr_check = 90\<rparr>
        \<lparr>now_check = 100, now_stamp = 100, probes = (\<lambda>i. ProbeRaised ConnectionError),
         posts = (\<lambda>i. if i = 0 then Raised ServerDisconnectedError
                        else Response 200 (Some (JDict [(''result'', JInt 7)])))\<rparr>
        ''query'' JNull))) = [''c'', ''b'']"
proof -
  let ?S = "\<lparr>rpc_addresses = [''a'', ''b'', ''c''], available_rpcs = [''c'', ''b''],
             last_rpc_addr_check = 90\<rparr>"
  let ?W = "\<lparr>now_check = 100, now_stamp = 100, probes = (\<lambda>i. ProbeRaised ConnectionError),
         posts = (\<lambda>i. if i = 0 then Raised ServerDisconnectedError
                        else Response 200 (Some (JDict [(''result'', JInt 7)])))\<rparr>"
  have h: "available_rpcs ?S \<noteq> []" by simp
  have p: "(1::nat) < length (available_rpcs ?S)
      \<and> (\<forall>m<1. \<exists>e. attempt (posts ?W m) = Inl e \<and> transport_class e)
      \<and> attempt (posts ?W 1) = Inr (JDict [(''result'', JInt 7)])" by simp
  from call_rpc_request_rank_order[OF h, of ?W "''query''" JNull] p
  have "fst (call_rpc_request ?S ?W ''query'' JNull) = Inr (JDict [(''result'', JInt 7)])
      \<and> List.map_filter post_addr (snd (snd (call_rpc_request ?S ?W ''query'' JNull)))
          = take (Suc 1) (available_rpcs ?S)" by blast
  then show ?thesis using h by simp
qed

text \<open>
  Claim C1 at a run where an endpoint before the one that answers times out. The
  endpoints are \<open>a\<close>, \<open>b\<close>, \<open>c\<close> in rank order: the POST to \<open>a\<close> fails to connect, the POST
  to \<open>b\<close> times out, and \<open>c\<close> answers 200 with a body. Both failures are transport
  failures, so the claim has the call return the body of \<open>c\<close>. The connection error is
  logged and the loop goes on to \<open>b\<close>; the \<open>asyncio.TimeoutError\<close> of \<open>b\<close> is none of the
  classes of the \<open>except\<close> clause, so the call raises it and \<open>c\<close> is never tried.
\<close>

theorem timeout_before_success_ends_call:
  "call_rpc_request
     \<lparr>rpc_addresses = [''a'', ''b'', ''c''], available_rpcs = [''a'', ''b'', ''c''],
      last_rpc_addr_check = 90\<rparr>
     \<lparr>now_check = 100, now_stamp = 100, probes = (\<lambda>i. ProbeRaised ConnectionError),
      posts = (\<lambda>i. if i = 0 then Raised ClientConnectorError
                     else if i = 1 then Raised TimeoutError
                     else Response 200 (Some (JDict [(''result'', JInt 7)])))\<rparr>
     ''query'' JNull
   = (Inl TimeoutError,
      \<lparr>rpc_addresses = [''a'', ''b'', ''c''], available_rpcs = [''a'', ''b'', ''c''],
       last_rpc_addr_check = 90\<rparr>,
      [Post ''a'' (envelope ''query'' JNull), Log (RpcErrorMsg ClientConnectorError),
       Post ''b'' (envelope ''query'' JNull)])
 \<and> attempt (Response 200 (Some (JDict [(''result'', JInt 7)])))
   = Inr (JDict [(''result'', JInt 7)])"
  by (simp add: call_rpc_request_def freshness_def)

text \<open>
  What the \<open>except\<close> clause covers. When every endpoint of the list the call dispatches
  to fails with a class of the clause (\<open>RPCTimeoutError\<close>, \<open>ClientResponseError\<close>,
  \<open>ClientConnectorError\<close>, \<open>ServerDisconnectedError\<close>, \<open>ConnectionError\<close>), each
  attempt is followed by the log line of its exception and by the attempt on the next
  endpoint, \<open>call_rpc_request\<close> returns \<open>None\<close>, and \<open>json_rpc\<close> raises
  \<open>RpcNotAvailableError\<close>.
\<close>

theorem transport_failures_collapse:
  assumes "\<forall>i<length (available_rpcs (fst (freshness s w))).
             \<exists>e. attempt (posts w i) = Inl e \<and> transport_class e"
  shows "(\<exists>msg. fst (json_rpc xm s w method params) = Inl (RpcNotAvailableError msg))
       \<and> (available_rpcs (fst (freshness s w)) \<noteq> []
            \<longrightarrow> fst (call_rpc_request s w method params) = Inr JNull)
       \<and> snd (snd (call_rpc_request s w method params)) =
           snd (freshness s w) @
           concat (map (\<lambda>(i, a). [Post a (envelope method params),
                                   Log (RpcErrorMsg (projl (attempt (posts w i))))])
                       (enumerate 0 (available_rpcs (fst (freshness s w)))))"
proof -
  obtain s1 ev1 where f: "freshness s w = (s1, ev1)" by (cases "freshness s w")
  from assms f have "\<forall>m<length (available_rpcs s1).
      \<exists>e. attempt (posts w (0 + m)) = Inl e \<and> transport_class e" by simp
  from request_loop_all_fail[OF this, of "envelope method params"]
  have l: "request_loop (posts w) (envelope method params) 0 (available_rpcs s1) =
     (Inr JNull,
      concat (map (\<lambda>(m, a). [Post a (envelope method params),
                              Log (RpcErrorMsg (projl (attempt (posts w m))))])
                  (enumerate 0 (available_rpcs s1))))" .
  show ?thesis
  proof (cases "available_rpcs s1 = []")
    case True
    then show ?thesis using f by (simp add: json_rpc_def call_rpc_request_def)
  next
    case False
    then show ?thesis using f l by (simp add: json_rpc_def call_rpc_request_def)
  qed
qed

theorem transport_failures_collapse_witness:
  "fst (json_rpc plain_module
        \<lparr>rpc_addresses = [''a'', ''b'', ''c''], available_rpcs = [''c'', ''b''],
         last_rpc_addr_check = 90\<rparr>
        \<lparr>now_check = 100, now_stamp = 100, probes = (\<lambda>i. ProbeRaised ConnectionError),
         posts = (\<lambda>i. if i = 0 then Raised ClientConnectorError else Response 503 None)\<rparr>
        ''query'' JNull) = Inl (RpcNotAvailableError ''RPC not available'')
   \<and> fst (call_rpc_request
        \<lparr>rpc_addresses = [''a'', ''b'', ''c''], available_rpcs = [''c'', ''b''],
         last_rpc_addr_check = 90\<rparr>
        \<lparr>now_check = 100, now_stamp = 100, probes = (\<lambda>i. ProbeRaised ConnectionError),
         posts = (\<lambda>i. if i = 0 then Raised ClientConnectorError else Response 503 None)\<rparr>
        ''query'' JNull) = Inr JNull
   \<and> snd (snd (call_rpc_request
        \<lparr>rpc_addresses = [''a'', ''b'', ''c''], available_rpcs = [''c'', ''b''],
         last_rpc_addr_check = 90\<rparr>
        \<lparr>now_check = 100, now_stamp = 100, probes = (\<lambda>i. ProbeRaised ConnectionError),
         posts = (\<lambda>i. if i = 0 then Raised ClientConnectorError else Response 503 None)\<rparr>
        ''query'' JNull)) =
       [Post ''c'' (envelope ''query'' JNull), Log (RpcErrorMsg ClientConnectorError),
        Post ''b'' (envelope ''query'' JNull), Log (RpcErrorMsg ClientResponseError)]"
proof -
  let ?S = "\<lparr>rpc_addresses = [''a'', ''b'', ''c''], available_rpcs = [''c'', ''b''],
             last_rpc_addr_check = 90\<rparr>"
  let ?W = "\<lparr>now_check = 100, now_stamp = 100, probes = (\<lambda>i. ProbeRaised ConnectionError),
         posts = (\<lambda>i. if i = 0 then Raised ClientConnectorError else Response 503 None)\<rparr>"
  have f: "freshness ?S ?W = (?S, [])" by (simp add: freshness_def)
  have h: "\<forall>i<length (available_rpcs (fst (freshness ?S ?W))).
             \<exists>e. attempt (posts ?W i) = Inl e \<and> transport_class e"
    by (simp add: f)
  have j: "fst (json_rpc plain_module ?S ?W ''query'' JNull) =
      Inl (RpcNotAvailableError ''RPC not available'')"
    by (simp add: json_rpc_def call_rpc_request_def f)
  from transport_failures_collapse[OF h, of plain_module "''query''" JNull] j
  show ?thesis by (simp add: f enumerate_eq_zip upt_rec)
qed

text \<open>
  Claim C4 at a request that times out. The \<open>except\<close> clause names \<open>RPCTimeoutError\<close>,
  the class of the server's \<open>TIMEOUT_ERROR\<close> reply, which nothing in the \<open>try\<close> body
  raises; the \<open>asyncio.TimeoutError\<close> of a request whose timeout expires is none of the
  classes of the clause. With the endpoints \<open>c\<close> and \<open>b\<close> available and the POST to \<open>c\<close>
  timing out, \<open>call_rpc_request\<close> and \<open>json_rpc\<close> raise the bare \<open>TimeoutError\<close>:
  nothing is logged and \<open>b\<close>, which would have answered, is never tried.
\<close>

theorem timeout_leaves_request_loop:
  "call_rpc_request
     \<lparr>rpc_addresses = [''a'', ''b'', ''c''], available_rpcs = [''c'', ''b''],
      last_rpc_addr_check = 90\<rparr>
     \<lparr>now_check = 100, now_stamp = 100, probes = (\<lambda>i. ProbeRaised ConnectionError),
      posts = (\<lambda>i. if i = 0 then Raised TimeoutError
                     else Response 200 (Some (JDict [(''result'', JInt 7)])))\<rparr>
     ''query'' JNull
   = (Inl TimeoutError,
      \<lparr>rpc_addresses = [''a'', ''b'', ''c''], available_rpcs = [''c'', ''b''],
       last_rpc_addr_check = 90\<rparr>,
      [Post ''c'' (envelope ''query'' JNull)])
 \<and> fst (json_rpc xm
     \<lparr>rpc_addresses = [''a'', ''b'', ''c''], available_rpcs = [''c'', ''b''],
      last_rpc_addr_check = 90\<rparr>
     \<lparr>now_check = 100, now_stamp = 100, probes = (\<lambda>i. ProbeRaised ConnectionError),
      posts = (\<lambda>i. if i = 0 then Raised TimeoutError
                     else Response 200 (Some (JDict [(''result'', JInt 7)])))\<rparr>
     ''query'' JNull)
   = Inl TimeoutError"
  by (simp add: json_rpc_def call_rpc_request_def freshness_def)

text \<open>
  Claim C3. A call of \<open>call_rpc_request\<close> that finds the available list empty logs the
  warning and runs \<open>check_available_rpcs\<close> to its end before anything else: the state
  it goes on with is the refreshed one, its events are the warning, then all the events
  of the refresh (none of them a POST), then the events of the request loop (none of
  them a GET, and every POST to an endpoint of the refreshed list). When the refreshed
  list is empty the call raises \<open>RpcNotAvailableError\<close> and has POSTed nothing.
\<close>

theorem empty_snapshot_refresh_first:
  assumes "available_rpcs s = []"
  shows "fst (snd (call_rpc_request s w method params)) =
           fst (check_available_rpcs (s\<lparr>last_rpc_addr_check := now_stamp w\<rparr>) (probes w))
       \<and> (\<exists>pev. snd (snd (call_rpc_request s w method params)) =
             Log NoRpcRechecking #
             snd (check_available_rpcs (s\<lparr>last_rpc_addr_check := now_stamp w\<rparr>) (probes w)) @ pev
           \<and> filter is_get pev = []
           \<and> set (List.map_filter post_addr pev) \<subseteq>
               set (available_rpcs
                 (fst (check_available_rpcs (s\<lparr>last_rpc_addr_check := now_stamp w\<rparr>) (probes w)))))
       \<and> filter is_post
           (snd (check_available_rpcs (s\<lparr>last_rpc_addr_check := now_stamp w\<rparr>) (probes w))) = []
       \<and> (available_rpcs
            (fst (check_available_rpcs (s\<lparr>last_rpc_addr_check := now_stamp w\<rparr>) (probes w))) = []
          \<longrightarrow> fst (call_rpc_request s w method params) =
                Inl (RpcNotAvailableError ''No RPC available'')
            \<and> filter is_post (snd (snd (call_rpc_request s w method params))) = [])"
proof -
  let ?s0 = "s\<lparr>last_rpc_addr_check := now_stamp w\<rparr>"
  obtain s1 rev where c: "check_available_rpcs ?s0 (probes w) = (s1, rev)"
    by (cases "check_available_rpcs ?s0 (probes w)")
  have f: "freshness s w = (s1, Log NoRpcRechecking # rev)"
    using assms c by (simp add: freshness_def)
  have np: "filter is_post rev = []"
    using check_available_rpcs_no_post[of ?s0 "probes w"] c by simp
  show ?thesis
  proof (cases "available_rpcs s1 = []")
    case True
    then show ?thesis using f c np by (simp add: call_rpc_request_def)
  next
    case False
    obtain r ev2 where l: "request_loop (posts w) (envelope method params) 0 (available_rpcs s1) = (r, ev2)"
      by (cases "request_loop (posts w) (envelope method params) 0 (available_rpcs s1)")
    have "filter is_get ev2 = []"
      using request_loop_no_get[of "posts w" "envelope method params" 0 "available_rpcs s1"] l by simp
    moreover have "set (List.map_filter post_addr ev2) \<subseteq> set (available_rpcs s1)"
      using request_loop_posts_within[of "posts w" "envelope method params" 0 "available_rpcs s1"] l
      by simp
    ultimately show ?thesis using False f c np l by (simp add: call_rpc_request_def)
  qed
qed

theorem empty_snapshot_refresh_first_witness:
  "available_rpcs \<lparr>rpc_addresses = [''a'', ''b''], available_rpcs = [],
                   last_rpc_addr_check = 90\<rparr> = []
   \<and> call_rpc_request
        \<lparr>rpc_addresses = [''a'', ''b''], available_rpcs = [], last_rpc_addr_check = 90\<rparr>
        \<lparr>now_check = 100, now_stamp = 101,
         probes = (\<lambda>i. if i = 0 then ProbeResponse 500 None 1 else ProbeRaised ClientConnectorError),
         posts = (\<lambda>i. Response 200 (Some (JDict [(''result'', JInt 7)])))\<rparr>
        ''query'' JNull =
       (Inl (RpcNotAvailableError ''No RPC available''),
        \<lparr>rpc_addresses = [''a'', ''b''], available_rpcs = [], last_rpc_addr_check = 101\<rparr>,
        [Log NoRpcRechecking, Get ''a'', Get ''b''])"
proof -
  let ?S = "\<lparr>rpc_addresses = [''a'', ''b''], available_rpcs = [], last_rpc_addr_check = 90\<rparr>"
  let ?W = "\<lparr>now_check = 100, now_stamp = 101,
         probes = (\<lambda>i. if i = 0 then ProbeResponse 500 None 1 else ProbeRaised ClientConnectorError),
         posts = (\<lambda>i. Response 200 (Some (JDict [(''result'', JInt 7)])))\<rparr>"
  have h: "available_rpcs ?S = []" by simp
  have c: "check_available_rpcs
      \<lparr>rpc_addresses = [''a'', ''b''], available_rpcs = [], last_rpc_addr_check = 101\<rparr>
      (\<lambda>i. if i = 0 then ProbeResponse 500 None 1 else ProbeRaised ClientConnectorError) =
      (\<lparr>rpc_addresses = [''a'', ''b''], available_rpcs = [], last_rpc_addr_check = 101\<rparr>,
       [Get ''a'', Get ''b''])"
    by (simp add: check_available_rpcs_def on_probe_exception_def on_probe_rejected_def)
  have f: "freshness ?S ?W =
      (\<lparr>rpc_addresses = [''a'', ''b''], available_rpcs = [], last_rpc_addr_check = 101\<rparr>,
       [Log NoRpcRechecking, Get ''a'', Get ''b''])"
    by (simp add: freshness_def c)
  have call: "call_rpc_request ?S ?W ''query'' JNull =
       (Inl (RpcNotAvailableError ''No RPC available''),
        \<lparr>rpc_addresses = [''a'', ''b''], available_rpcs = [], last_rpc_addr_check = 101\<rparr>,
        [Log NoRpcRechecking, Get ''a'', Get ''b''])"
    by (simp add: call_rpc_request_def f)
  from empty_snapshot_refresh_first[OF h, of ?W "''query''" JNull] call
  show ?thesis by simp
qed

text \<open>
  Claim C10. When \<open>call_rpc_request\<close> returns a falsy content (\<open>None\<close>, or an empty
  body such as \<open>{}\<close>), \<open>json_rpc\<close> raises \<open>RpcNotAvailableError\<close>; so it does when the
  first endpoint answers with a status below 400 and the body \<open>{}\<close>. When \<open>json_rpc\<close>
  returns a value, the content was a dict that is not empty, has no \<open>"error"\<close> key, and
  holds that value under \<open>"result"\<close>.
\<close>

theorem json_rpc_content_guard:
  "(call_rpc_request s w method params = (Inr content, s1, evs) \<and> \<not> truthy content
      \<longrightarrow> json_rpc xm s w method params =
            (Inl (RpcNotAvailableError ''RPC not available''), s1, evs))
 \<and> (available_rpcs s \<noteq> [] \<and> posts w 0 = Response st (Some (JDict [])) \<and> st < 400
      \<longrightarrow> fst (json_rpc xm s w method params) = Inl (RpcNotAvailableError ''RPC not available''))
 \<and> (json_rpc xm s w method params = (Inr v, s1, evs)
      \<longrightarrow> (\<exists>kvs. call_rpc_request s w method params = (Inr (JDict kvs), s1, evs)
                 \<and> kvs \<noteq> [] \<and> map_of kvs ''error'' = None \<and> map_of kvs ''result'' = Some v))"
proof (intro conjI impI)
  assume "call_rpc_request s w method params = (Inr content, s1, evs) \<and> \<not> truthy content"
  then show "json_rpc xm s w method params =
      (Inl (RpcNotAvailableError ''RPC not available''), s1, evs)"
    by (simp add: json_rpc_def)
next
  assume a: "available_rpcs s \<noteq> [] \<and> posts w 0 = Response st (Some (JDict [])) \<and> st < 400"
  then obtain a0 rest where av: "available_rpcs s = a0 # rest" by (cases "available_rpcs s") auto
  have "available_rpcs (fst (freshness s w)) = a0 # rest"
    using freshness_nonempty[of s w] a av by simp
  then have "fst (call_rpc_request s w method params) = Inr (JDict [])"
    using a by (simp add: call_rpc_request_def case_prod_unfold)
  then show "fst (json_rpc xm s w method params) = Inl (RpcNotAvailableError ''RPC not available'')"
    by (cases "call_rpc_request s w method params") (simp add: json_rpc_def)
next
  assume j: "json_rpc xm s w method params = (Inr v, s1, evs)"
  obtain r s' ev' where c: "call_rpc_request s w method params = (r, s', ev')"
    by (cases "call_rpc_request s w method params")
  from j c obtain content where r: "r = Inr content"
    by (cases r) (auto simp: json_rpc_def)
  from j c r have t: "truthy content" and se: "s' = s1" "ev' = evs"
    by (auto simp: json_rpc_def split: if_splits sum.splits option.splits)
  from j c r t have g: "get_error_from_response xm content = Inr None"
    and res: "subscript content ''result'' = Inr v"
    by (auto simp: json_rpc_def split: sum.splits option.splits)
  from res obtain kvs where k: "content = JDict kvs" by (cases content) auto
  from g k have "map_of kvs ''error'' = None"
    by (auto simp: classify_def split: option.splits sum.splits prod.splits)
  moreover from res k have "map_of kvs ''result'' = Some v" by (auto split: option.splits)
  moreover from t k have "kvs \<noteq> []" by simp
  ultimately show "\<exists>kvs. call_rpc_request s w method params = (Inr (JDict kvs), s1, evs)
                 \<and> kvs \<noteq> [] \<and> map_of kvs ''error'' = None \<and> map_of kvs ''result'' = Some v"
    using c r k se by simp
qed

theorem json_rpc_content_guard_witness:
  "json_rpc plain_module
        \<lparr>rpc_addresses = [''a''], available_rpcs = [''a''], last_rpc_addr_check = 90\<rparr>
        \<lparr>now_check = 100, now_stamp = 100, probes = (\<lambda>i. ProbeRaised ConnectionError),
         posts = (\<lambda>i. Response 200 (Some (JDict [])))\<rparr>
        ''query'' JNull =
       (Inl (RpcNotAvailableError ''RPC not available''),
        \<lparr>rpc_addresses = [''a''], available_rpcs = [''a''], last_rpc_addr_check = 90\<rparr>, [Post ''a'' (envelope ''query'' JNull)])
   \<and> json_rpc plain_module
        \<lparr>rpc_addresses = [''a''], available_rpcs = [''a''], last_rpc_addr_check = 90\<rparr>
        \<lparr>now_check = 100, now_stamp = 100, probes = (\<lambda>i. ProbeRaised ConnectionError),
         posts = (\<lambda>i. Response 200 (Some (JDict [(''result'', JInt 7)])))\<rparr>
        ''query'' JNull =
       (Inr (JInt 7),
        \<lparr>rpc_addresses = [''a''], available_rpcs = [''a''], last_rpc_addr_check = 90\<rparr>, [Post ''a'' (envelope ''query'' JNull)])
   \<and> call_rpc_request
        \<lparr>rpc_addresses = [''a''], available_rpcs = [''a''], last_rpc_addr_check = 90\<rparr>
        \<lparr>now_check = 100, now_stamp = 100, probes = (\<lambda>i. ProbeRaised ConnectionError),
         posts = (\<lambda>i. Response 200 (Some (JDict [(''result'', JInt 7)])))\<rparr>
        ''query'' JNull =
       (Inr (JDict [(''result'', JInt 7)]),
        \<lparr>rpc_addresses = [''a''], available_rpcs = [''a''], last_rpc_addr_check = 90\<rparr>, [Post ''a'' (envelope ''query'' JNull)])"
proof -
  let ?S = "\<lparr>rpc_addresses = [''a''], available_rpcs = [''a''], last_rpc_addr_check = 90\<rparr>"
  let ?W0 = "\<lparr>now_check = 100, now_stamp = 100, probes = (\<lambda>i. ProbeRaised ConnectionError),
         posts = (\<lambda>i. Response 200 (Some (JDict [])))\<rparr>"
  let ?W1 = "\<lparr>now_check = 100, now_stamp = 100, probes = (\<lambda>i. ProbeRaised ConnectionError),
         posts = (\<lambda>i. Response 200 (Some (JDict [(''result'', JInt 7)])))\<rparr>"
  let ?ev = "[Post ''a'' (envelope ''query'' JNull)]"
  have c0: "call_rpc_request ?S ?W0 ''query'' JNull = (Inr (JDict []), ?S, ?ev) \<and> \<not> truthy (JDict [])"
    by (simp add: call_rpc_request_def freshness_def)
  have a0: "available_rpcs ?S \<noteq> [] \<and> posts ?W0 0 = Response 200 (Some (JDict [])) \<and> (200::nat) < 400"
    by simp
  have j1: "json_rpc plain_module ?S ?W1 ''query'' JNull = (Inr (JInt 7), ?S, ?ev)"
    by (simp add: json_rpc_def call_rpc_request_def freshness_def)
  from json_rpc_content_guard[of ?S ?W0 "''query''" JNull "JDict []" ?S ?ev plain_module 200 "JInt 7"] c0 a0
  have r0: "json_rpc plain_module ?S ?W0 ''query'' JNull =
       (Inl (RpcNotAvailableError ''RPC not available''), ?S, ?ev)" by blast
  from json_rpc_content_guard[of ?S ?W1 "''query''" JNull "JDict []" ?S ?ev plain_module 200 "JInt 7"] j1
  have "\<exists>kvs. call_rpc_request ?S ?W1 ''query'' JNull = (Inr (JDict kvs), ?S, ?ev)
                 \<and> kvs \<noteq> [] \<and> map_of kvs ''error'' = None \<and> map_of kvs ''result'' = Some (JInt 7)"
    by blast
  then have "call_rpc_request ?S ?W1 ''query'' JNull = (Inr (JDict [(''result'', JInt 7)]), ?S, ?ev)"
    by (simp add: call_rpc_request_def freshness_def)
  with r0 j1 show ?thesis by simp
qed

section \<open>The snapshot that check_available_rpcs builds\<close>

lemma probe_one_fst:
  "fst (probe_one s a p) = (if healthy p then Some (a, latency_of p) else None)"
  by (cases p) (auto simp: healthy_def split: option.splits sum.splits)

lemma probe_one_gets: "List.map_filter get_addr (snd (probe_one s a p)) = [a]"
  by (cases p)
     (auto simp: on_probe_exception_def on_probe_rejected_def split: option.splits sum.splits)

lemma probe_one_logs:
  "length (filter is_log (snd (probe_one s a p))) =
     (if \<not> healthy p \<and> a \<in> set (available_rpcs s) then 1 else 0)"
  by (cases p)
     (auto simp: healthy_def on_probe_exception_def on_probe_rejected_def
           split: option.splits sum.splits)

lemma probe_loop_fst:
  "fst (probe_loop s pr i as acc) =
     acc @ map (\<lambda>(j, a). (a, latency_of (pr j)))
               (filter (\<lambda>(j, a). healthy (pr j)) (enumerate i as))"
proof (induction as arbitrary: i acc)
  case Nil
  then show ?case by simp
next
  case (Cons a as)
  show ?case
    using probe_one_fst[of s a "pr i"]
    by (cases "probe_one s a (pr i)") (simp add: Cons.IH case_prod_unfold)
qed

lemma probe_loop_gets:
  "List.map_filter get_addr (snd (probe_loop s pr i as acc)) = as"
proof (induction as arbitrary: i acc)
  case Nil
  then show ?case by simp
next
  case (Cons a as)
  show ?case
    using probe_one_gets[of s a "pr i"]
    by (cases "probe_one s a (pr i)") (simp add: Cons.IH case_prod_unfold map_filter_append)
qed

lemma probe_loop_logs:
  "length (filter is_log (snd (probe_loop s pr i as acc))) =
     length (filter (\<lambda>(j, a). \<not> healthy (pr j) \<and> a \<in> set (available_rpcs s)) (enumerate i as))"
proof (induction as arbitrary: i acc)
  case Nil
  then show ?case by simp
next
  case (Cons a as)
  show ?case
    using probe_one_logs[of s a "pr i"]
    by (cases "probe_one s a (pr i)") (simp add: Cons.IH case_prod_unfold)
qed

lemma enumerate_as_map: "enumerate 0 xs = map (\<lambda>i. (i, xs ! i)) [0..<length xs]"
  by (rule nth_equalityI) (simp_all add: nth_enumerate_eq)

lemma insort_key_map:
  "insort_key f (g x) (map g xs) = map g (insort_key (\<lambda>y. f (g y)) x xs)"
  by (induction xs) simp_all

lemma sort_key_map: "sort_key f (map g xs) = map g (sort_key (\<lambda>y. f (g y)) xs)"
  by (induction xs) (simp_all add: insort_key_map)

lemma insort_key_stable:
  fixes f :: "nat \<Rightarrow> real"
  assumes "sorted_wrt (\<lambda>i j. f i < f j \<or> (f i = f j \<and> i < j)) ys"
    and "\<forall>y\<in>set ys. x < y"
  shows "sorted_wrt (\<lambda>i j. f i < f j \<or> (f i = f j \<and> i < j)) (insort_key f x ys)"
  using assms
proof (induction ys)
  case Nil
  then show ?case by simp
next
  case (Cons y ys)
  show ?case
  proof (cases "f x \<le> f y")
    case True
    have "f x < f z \<or> (f x = f z \<and> x < z)" if "z \<in> set (y # ys)" for z
    proof -
      have "f y \<le> f z" using that Cons.prems(1) by auto
      with True have "f x \<le> f z" by simp
      moreover have "x < z" using that Cons.prems(2) by auto
      ultimately show ?thesis by auto
    qed
    with True Cons.prems(1) show ?thesis by simp
  next
    case False
    then have "f y < f x" by simp
    moreover have "sorted_wrt (\<lambda>i j. f i < f j \<or> (f i = f j \<and> i < j)) (insort_key f x ys)"
      using Cons by simp
    ultimately show ?thesis using False Cons.prems(1) by (auto simp: set_insort_key)
  qed
qed

lemma sort_key_stable_wrt:
  fixes f :: "nat \<Rightarrow> real"
  assumes "sorted_wrt (<) xs"
  shows "sorted_wrt (\<lambda>i j. f i < f j \<or> (f i = f j \<and> i < j)) (sort_key f xs)"
  using assms
proof (induction xs)
  case Nil
  then show ?case by simp
next
  case (Cons x xs)
  then show ?case by (simp add: insort_key_stable)
qed

lemma sorted_wrt_filter_upt: "sorted_wrt (<) (filter P [0..<n])"
  by (rule sorted_wrt_filter) (simp add: sorted_wrt_upt)

lemma probe_one_shape:
  "map is_log (snd (probe_one s a p)) =
     False # (if \<not> healthy p \<and> a \<in> set (available_rpcs s) then [True] else [])"
  by (cases p)
     (auto simp: healthy_def on_probe_exception_def on_probe_rejected_def
           split: option.splits sum.splits)

lemma probe_loop_shape:
  "map is_log (snd (probe_loop s pr i as acc)) =
     concat (map (\<lambda>(j, a). False # (if \<not> healthy (pr j) \<and> a \<in> set (available_rpcs s)
                                       then [True] else []))
                 (enumerate i as))"
proof (induction as arbitrary: i acc)
  case Nil
  then show ?case by simp
next
  case (Cons a as)
  show ?case
    using probe_one_shape[of s a "pr i"]
    by (cases "probe_one s a (pr i)") (simp add: Cons.IH case_prod_unfold)
qed

lemma check_available_rpcs_shape:
  "map is_log (snd (check_available_rpcs s pr)) =
     concat (map (\<lambda>i. False # (if \<not> healthy (pr i)
                                     \<and> rpc_addresses s ! i \<in> set (available_rpcs s)
                                  then [True] else []))
                 [0..<length (rpc_addresses s)])"
  by (simp add: check_available_rpcs_def case_prod_unfold probe_loop_shape enumerate_as_map
                comp_def)

lemma check_available_rpcs_list:
  "available_rpcs (fst (check_available_rpcs s pr)) =
     map (\<lambda>i. rpc_addresses s ! i)
         (sort_key (\<lambda>i. latency_of (pr i))
            (filter (\<lambda>i. healthy (pr i)) [0..<length (rpc_addresses s)]))"
proof -
  have "fst (probe_loop s pr 0 (rpc_addresses s) []) =
      map (\<lambda>i. (rpc_addresses s ! i, latency_of (pr i)))
          (filter (\<lambda>i. healthy (pr i)) [0..<length (rpc_addresses s)])"
    by (simp add: probe_loop_fst enumerate_as_map filter_map comp_def)
  then show ?thesis
    by (simp add: check_available_rpcs_def case_prod_unfold sort_key_map comp_def)
qed

text \<open>
  Claim C2, as the code has it. For every provider state and all probe outcomes,
  \<open>check_available_rpcs\<close> returns (it never raises) and the new available list is the
  list of the candidates at the positions \<open>is\<close>, where \<open>is\<close> holds exactly the positions
  whose probe answered with status 200 and a body whose \<open>sync_info.syncing\<close> is falsy, in
  ascending order of the measured latency, candidates of equal latency in candidate
  order. The candidates and the time stamp are unchanged; every candidate is probed
  once, in order; and the events are, candidate by candidate, the GET, followed by one
  log line exactly when the candidate is dropped and is in the previous available
  list.

  The counterexample is a run where the claim as worded fails twice: the probe of
  \<open>a\<close> answers 200 with \<open>syncing: null\<close>, which is not \<open>false\<close>, and \<open>a\<close> is in the new
  list; the probe of \<open>b\<close> answers 500, \<open>b\<close> is dropped, and nothing is logged, since
  \<open>b\<close> was not in the previous list.
\<close>

theorem check_available_rpcs_snapshot:
  "\<exists>is. set is = {i. i < length (rpc_addresses s) \<and> healthy (pr i)}
      \<and> sorted (map (\<lambda>i. latency_of (pr i)) is)
      \<and> sorted_wrt (\<lambda>i j. latency_of (pr i) < latency_of (pr j)
                       \<or> (latency_of (pr i) = latency_of (pr j) \<and> i < j)) is
      \<and> available_rpcs (fst (check_available_rpcs s pr)) = map (\<lambda>i. rpc_addresses s ! i) is
      \<and> rpc_addresses (fst (check_available_rpcs s pr)) = rpc_addresses s
      \<and> last_rpc_addr_check (fst (check_available_rpcs s pr)) = last_rpc_addr_check s
      \<and> List.map_filter get_addr (snd (check_available_rpcs s pr)) = rpc_addresses s
      \<and> map is_log (snd (check_available_rpcs s pr)) =
          concat (map (\<lambda>i. False # (if \<not> healthy (pr i)
                                          \<and> rpc_addresses s ! i \<in> set (available_rpcs s)
                                       then [True] else []))
                      [0..<length (rpc_addresses s)])"
proof -
  let ?is = "sort_key (\<lambda>i. latency_of (pr i))
               (filter (\<lambda>i. healthy (pr i)) [0..<length (rpc_addresses s)])"
  have 1: "set ?is = {i. i < length (rpc_addresses s) \<and> healthy (pr i)}" by auto
  have 2: "sorted (map (\<lambda>i. latency_of (pr i)) ?is)" by (rule sorted_sort_key)
  have 3: "sorted_wrt (\<lambda>i j. latency_of (pr i) < latency_of (pr j)
                       \<or> (latency_of (pr i) = latency_of (pr j) \<and> i < j)) ?is"
    by (rule sort_key_stable_wrt) (rule sorted_wrt_filter_upt)
  have 4: "available_rpcs (fst (check_available_rpcs s pr)) = map (\<lambda>i. rpc_addresses s ! i) ?is"
    by (rule check_available_rpcs_list)
  have 5: "rpc_addresses (fst (check_available_rpcs s pr)) = rpc_addresses s"
    "last_rpc_addr_check (fst (check_available_rpcs s pr)) = last_rpc_addr_check s"
    by (simp_all add: check_available_rpcs_def case_prod_unfold)
  have 6: "List.map_filter get_addr (snd (check_available_rpcs s pr)) = rpc_addresses s"
    by (simp add: check_available_rpcs_def case_prod_unfold probe_loop_gets)
  have 7: "map is_log (snd (check_available_rpcs s pr)) =
          concat (map (\<lambda>i. False # (if \<not> healthy (pr i)
                                          \<and> rpc_addresses s ! i \<in> set (available_rpcs s)
                                       then [True] else []))
                      [0..<length (rpc_addresses s)])"
    by (rule check_available_rpcs_shape)
  from 1 2 3 4 5 6 7 show ?thesis by blast
qed

theorem check_available_rpcs_snapshot_witness:
  "check_available_rpcs
      \<lparr>rpc_addresses = [''A'', ''B'', ''C''], available_rpcs = [''A'', ''B'', ''C''], last_rpc_addr_check = 0\<rparr>
      (\<lambda>i. if i = 0
           then ProbeResponse 200 (Some (JDict [(''sync_info'', JDict [(''syncing'', JBool True)])])) 5
           else if i = 1
           then ProbeResponse 200 (Some (JDict [(''sync_info'', JDict [(''syncing'', JBool False)])])) 50
           else ProbeResponse 200 (Some (JDict [(''sync_info'', JDict [(''syncing'', JBool False)])])) 10)
   = (\<lparr>rpc_addresses = [''A'', ''B'', ''C''], available_rpcs = [''C'', ''B''], last_rpc_addr_check = 0\<rparr>,
      [Get ''A'', Log (RemoveAsyncRpc ''A''), Get ''B'', Get ''C''])"
proof -
  have "check_available_rpcs
      \<lparr>rpc_addresses = [''A'', ''B'', ''C''], available_rpcs = [''A'', ''B'', ''C''], last_rpc_addr_check = 0\<rparr>
      (\<lambda>i. if i = 0
           then ProbeResponse 200 (Some (JDict [(''sync_info'', JDict [(''syncing'', JBool True)])])) 5
           else if i = 1
           then ProbeResponse 200 (Some (JDict [(''sync_info'', JDict [(''syncing'', JBool False)])])) 50
           else ProbeResponse 200 (Some (JDict [(''sync_info'', JDict [(''syncing'', JBool False)])])) 10)
   = (\<lparr>rpc_addresses = [''A'', ''B'', ''C''], available_rpcs = [''C'', ''B''], last_rpc_addr_check = 0\<rparr>,
      [Get ''A'', Log (RemoveAsyncRpc ''A''), Get ''B'', Get ''C''])"
    by (simp add: check_available_rpcs_def syncing_of_def on_probe_rejected_def
                  on_probe_exception_def)
  with check_available_rpcs_snapshot[of
      "\<lparr>rpc_addresses = [''A'', ''B'', ''C''], available_rpcs = [''A'', ''B'', ''C''], last_rpc_addr_check = 0\<rparr>"
      "(\<lambda>i. if i = 0
           then ProbeResponse 200 (Some (JDict [(''sync_info'', JDict [(''syncing'', JBool True)])])) 5
           else if i = 1
           then ProbeResponse 200 (Some (JDict [(''sync_info'', JDict [(''syncing'', JBool False)])])) 50
           else ProbeResponse 200 (Some (JDict [(''sync_info'', JDict [(''syncing'', JBool False)])])) 10)"]
  show ?thesis by simp
qed

theorem check_available_rpcs_snapshot_counterexample:
  "check_available_rpcs
     \<lparr>rpc_addresses = [''a'', ''b''], available_rpcs = [''a''], last_rpc_addr_check = 0\<rparr>
     (\<lambda>i. if i = 0
           then ProbeResponse 200 (Some (JDict [(''sync_info'', JDict [(''syncing'', JNull)])])) 1
           else ProbeResponse 500 None 2)
     = (\<lparr>rpc_addresses = [''a'', ''b''], available_rpcs = [''a''], last_rpc_addr_check = 0\<rparr>,
        [Get ''a'', Get ''b''])
   \<and> \<not> reports_not_syncing
         (ProbeResponse 200 (Some (JDict [(''sync_info'', JDict [(''syncing'', JNull)])])) 1)"
  by (simp add: check_available_rpcs_def syncing_of_def on_probe_rejected_def
                reports_not_syncing_def)

section \<open>The classification of an error response\<close>

lemma refining_keys_step:
  "refining_keys xm (JDict ((key, v) # kvs)) =
     (if ERROR_CODE_TO_EXCEPTION xm key = None then [] else key # refining_keys xm v)"
  by (simp add: refining_keys_def)

lemma refining_keys_leaf:
  "refining_keys xm (JDict []) = []" "refining_keys xm JNull = []"
  "refining_keys xm (JBool b) = []" "refining_keys xm (JInt n) = []"
  "refining_keys xm (JFloat x) = []"
  "refining_keys xm (JStr t) = []" "refining_keys xm (JList xs) = []"
  by (simp_all add: refining_keys_def)

lemma refinements_leaf:
  "refinements xm (JDict []) = []" "refinements xm JNull = []"
  "refinements xm (JBool b) = []" "refinements xm (JInt n) = []"
  "refinements xm (JFloat x) = []"
  "refinements xm (JStr t) = []" "refinements xm (JList xs) = []"
  by (simp_all add: refinements_def refining_keys_leaf)

lemma refinements_stop:
  "ERROR_CODE_TO_EXCEPTION xm key = None \<Longrightarrow> refinements xm (JDict ((key, v) # kvs)) = []"
  by (simp add: refinements_def refining_keys_step)

lemma refinements_step:
  assumes "ERROR_CODE_TO_EXCEPTION xm key = Some cls"
  shows "refinements xm (JDict ((key, v) # kvs)) = (cls, v) # refinements xm v"
proof -
  have k: "refining_keys xm (JDict ((key, v) # kvs)) = key # refining_keys xm v"
    using assms by (simp add: refining_keys_step)
  show ?thesis
    unfolding refinements_def k
    using assms by (simp add: map_upt_Suc del: upt_Suc)
qed

lemma refinements_last:
  assumes "refinements xm body \<noteq> []"
  shows "last (refinements xm body) =
           (the (ERROR_CODE_TO_EXCEPTION xm (last (refining_keys xm body))),
            descend (length (refining_keys xm body)) body)"
proof -
  from assms obtain n where n: "length (refining_keys xm body) = Suc n"
    by (cases "length (refining_keys xm body)") (auto simp: refinements_def)
  then have ne: "refining_keys xm body \<noteq> []" by auto
  have "last (refinements xm body) =
      (the (ERROR_CODE_TO_EXCEPTION xm (refining_keys xm body ! n)), descend (Suc n) body)"
    unfolding refinements_def n by simp
  moreover have "last (refining_keys xm body) = refining_keys xm body ! n"
    using n ne by (simp add: last_conv_nth)
  ultimately show ?thesis using n by simp
qed

lemma walk_reaches:
  "walk xm ej error body =
     (case first_raise xm ej (refinements xm body) of
        Some e \<Rightarrow> Inl e
      | None \<Rightarrow>
          Inr (case refinements xm body of
                 [] \<Rightarrow> error
               | r # rs \<Rightarrow> RpcError (fst (last (r # rs))) (snd (last (r # rs))) ej))"
proof (induction xm ej error body rule: walk.induct)
  case (2 xm ej error key v kvs)
  show ?case
  proof (cases "ERROR_CODE_TO_EXCEPTION xm key")
    case None
    then show ?thesis by (simp add: refinements_stop)
  next
    case (Some cls)
    show ?thesis
    proof (cases "init_raises xm cls v ej")
      case (Some e)
      with \<open>ERROR_CODE_TO_EXCEPTION xm key = Some cls\<close> show ?thesis
        by (simp add: refinements_step construct_def)
    next
      case None
      then have c: "construct xm cls v ej = Inr (RpcError cls v ej)"
        by (simp add: construct_def)
      from "2.IH"[OF \<open>ERROR_CODE_TO_EXCEPTION xm key = Some cls\<close> c]
      show ?thesis
        using \<open>ERROR_CODE_TO_EXCEPTION xm key = Some cls\<close> c None
        by (simp add: refinements_step split: option.splits list.splits)
    qed
  qed
qed (simp_all add: refinements_leaf)

lemma provider_class_hashable:
  "(\<forall>xs. name \<noteq> JList xs) \<Longrightarrow> (\<forall>kvs. name \<noteq> JDict kvs) \<Longrightarrow>
   provider_class name = Inr (provider_kind_of name)"
  by (cases name) (simp_all split: option.splits)

lemma classification_reached:
  "(case refinements xm body of
      [] \<Rightarrow> RpcError (Provider base) body ej
    | r # rs \<Rightarrow> RpcError (fst (last (r # rs))) (snd (last (r # rs))) ej)
   = RpcError (most_specific xm base body) (descend (length (refining_keys xm body)) body) ej"
proof (cases "refinements xm body")
  case Nil
  then have "refining_keys xm body = []" by (simp add: refinements_def)
  with Nil show ?thesis by (simp add: most_specific_def)
next
  case (Cons r rs)
  then have ne: "refinements xm body \<noteq> []" by simp
  then have k: "refining_keys xm body \<noteq> []" by (auto simp: refinements_def)
  from refinements_last[OF ne] Cons k show ?thesis
    by (simp add: most_specific_def split: list.splits)
qed

text \<open>
  Claim C5, as the code has it. Take a content whose \<open>"error"\<close> is a dict with a
  \<open>"data"\<close> entry, whose \<open>"cause"\<close> is absent or a dict, and whose cause name (the empty
  string when absent) is hashable. \<open>get_error_from_response\<close> calls the constructor of
  the provider-level class of the cause name (the internal error class for a name that
  is not in the mapping) on the data body, and then, along the first keys of the nested
  body for as long as they are keys of the action-level table, the constructor of the
  class of each key on the value under it. When all these calls return, the function
  returns the error of the most specific kind: the class of the last refining key, or
  the provider-level class when there is none, with the body under that key and the
  whole \<open>"error"\<close> object. When one of the calls raises, the function raises what the
  first of them raises.

  The counterexample is a content with an \<open>"error"\<close> field that is not classified: the
  error object has no \<open>"data"\<close>, and \<open>content["error"]["data"]\<close> raises \<open>KeyError\<close>
  before any constructor is called.
\<close>

theorem get_error_from_response_classifies:
  assumes "map_of kvs ''error'' = Some (JDict es)"
    and "map_of es ''data'' = Some body"
    and "(map_of es ''cause'' = None \<and> name = JStr '''')
       \<or> (\<exists>cs. map_of es ''cause'' = Some (JDict cs)
                \<and> name = (case map_of cs ''name'' of None \<Rightarrow> JStr '''' | Some v \<Rightarrow> v))"
    and "(\<forall>xs. name \<noteq> JList xs) \<and> (\<forall>ds. name \<noteq> JDict ds)"
  shows "get_error_from_response xm (JDict kvs) =
           (case first_raise xm (JDict es) (constructions xm (provider_kind_of name) body) of
              Some e \<Rightarrow> Inl e
            | None \<Rightarrow>
                Inr (Some (RpcError (most_specific xm (provider_kind_of name) body)
                                    (descend (length (refining_keys xm body)) body)
                                    (JDict es))))"
proof -
  let ?ej = "JDict es"
  let ?base = "provider_kind_of name"
  have n: "(case dict_get ?ej ''cause'' (JDict []) of
             Inl e \<Rightarrow> Inl e
           | Inr cause \<Rightarrow> dict_get cause ''name'' (JStr '''')) = Inr name"
    using assms(3) by (auto split: option.splits)
  have c: "provider_class name = Inr ?base"
    using assms(4) by (simp add: provider_class_hashable)
  have cl: "classify xm ?ej =
      (case construct xm (Provider ?base) body ?ej of
         Inl e \<Rightarrow> Inl e
       | Inr error \<Rightarrow>
           (case walk xm ?ej error body of Inl e \<Rightarrow> Inl e | Inr refined \<Rightarrow> Inr (Some refined)))"
    using n c assms(2) by (auto simp: classify_def split: sum.splits)
  show ?thesis
  proof (cases "init_raises xm (Provider ?base) body ?ej")
    case (Some e)
    then show ?thesis
      using assms(1) by (simp add: cl construct_def constructions_def)
  next
    case None
    then have k: "construct xm (Provider ?base) body ?ej = Inr (RpcError (Provider ?base) body ?ej)"
      by (simp add: construct_def)
    have f: "first_raise xm ?ej (constructions xm ?base body) =
        first_raise xm ?ej (refinements xm body)"
      using None by (simp add: constructions_def)
    show ?thesis
    proof (cases "first_raise xm ?ej (refinements xm body)")
      case (Some e)
      then show ?thesis
        using assms(1) by (simp add: cl k f walk_reaches)
    next
      case None
      then show ?thesis
        using assms(1) classification_reached[where xm = xm and body = body and base = "?base" and ej = "?ej"]
        by (simp add: cl k f walk_reaches)
    qed
  qed
qed

theorem get_error_from_response_classifies_witness:
  "get_error_from_response plain_module
     (JDict [(''error'',
        JDict [(''cause'', JDict [(''name'', JStr ''TIMEOUT_ERROR'')]),
               (''data'', JStr ''Timeout'')])])
   = Inr (Some (RpcError (Provider RPCTimeoutError) (JStr ''Timeout'')
                  (JDict [(''cause'', JDict [(''name'', JStr ''TIMEOUT_ERROR'')]),
                          (''data'', JStr ''Timeout'')])))
 \<and> get_error_from_response
     \<lparr>ERROR_CODE_TO_EXCEPTION = [''Outer'' \<mapsto> Action ''OuterError'', ''Inner'' \<mapsto> Action ''InnerError''],
      timeout_subclass = (\<lambda>k. False),
      init_raises = (\<lambda>k body ej. None)\<rparr>
     (JDict [(''error'',
        JDict [(''data'', JDict [(''Outer'', JDict [(''Inner'', JDict [(''x'', JInt 1)])])])])])
   = Inr (Some (RpcError (Action ''InnerError'') (JDict [(''x'', JInt 1)])
                  (JDict [(''data'', JDict [(''Outer'', JDict [(''Inner'', JDict [(''x'', JInt 1)])])])])))
 \<and> get_error_from_response
     \<lparr>ERROR_CODE_TO_EXCEPTION = [''Outer'' \<mapsto> Action ''OuterError'', ''Inner'' \<mapsto> Action ''InnerError''],
      timeout_subclass = (\<lambda>k. False),
      init_raises = (\<lambda>k body ej. if k = Action ''InnerError'' then Some (KeyError ''kind'') else None)\<rparr>
     (JDict [(''error'',
        JDict [(''data'', JDict [(''Outer'', JDict [(''Inner'', JDict [(''x'', JInt 1)])])])])])
   = Inl (KeyError ''kind'')"
proof -
  let ?e1 = "[(''cause'', JDict [(''name'', JStr ''TIMEOUT_ERROR'')]), (''data'', JStr ''Timeout'')]"
  let ?b2 = "JDict [(''Outer'', JDict [(''Inner'', JDict [(''x'', JInt 1)])])]"
  let ?e2 = "[(''data'', ?b2)]"
  let ?m2 = "\<lparr>ERROR_CODE_TO_EXCEPTION = [''Outer'' \<mapsto> Action ''OuterError'', ''Inner'' \<mapsto> Action ''InnerError''],
      timeout_subclass = (\<lambda>k. False),
      init_raises = (\<lambda>k body ej. None)\<rparr>"
  let ?m3 = "\<lparr>ERROR_CODE_TO_EXCEPTION = [''Outer'' \<mapsto> Action ''OuterError'', ''Inner'' \<mapsto> Action ''InnerError''],
      timeout_subclass = (\<lambda>k. False),
      init_raises = (\<lambda>k body ej. if k = Action ''InnerError'' then Some (KeyError ''kind'') else None)\<rparr>"
  have h1: "map_of [(''error'', JDict ?e1)] ''error'' = Some (JDict ?e1)"
    and h2: "map_of ?e1 ''data'' = Some (JStr ''Timeout'')"
    and h3: "(map_of ?e1 ''cause'' = None \<and> JStr ''TIMEOUT_ERROR'' = JStr '''')
       \<or> (\<exists>cs. map_of ?e1 ''cause'' = Some (JDict cs)
                \<and> JStr ''TIMEOUT_ERROR'' = (case map_of cs ''name'' of None \<Rightarrow> JStr '''' | Some v \<Rightarrow> v))"
    and h4: "(\<forall>xs. JStr ''TIMEOUT_ERROR'' \<noteq> JList xs) \<and> (\<forall>ds. JStr ''TIMEOUT_ERROR'' \<noteq> JDict ds)"
    by simp_all
  have g1: "map_of [(''error'', JDict ?e2)] ''error'' = Some (JDict ?e2)"
    and g2: "map_of ?e2 ''data'' = Some ?b2"
    and g3: "(map_of ?e2 ''cause'' = None \<and> JStr '''' = JStr '''')
       \<or> (\<exists>cs. map_of ?e2 ''cause'' = Some (JDict cs)
                \<and> JStr '''' = (case map_of cs ''name'' of None \<Rightarrow> JStr '''' | Some v \<Rightarrow> v))"
    and g4: "(\<forall>xs. JStr '''' \<noteq> JList xs) \<and> (\<forall>ds. JStr '''' \<noteq> JDict ds)"
    by simp_all
  note t1 = get_error_from_response_classifies[OF h1 h2 h3 h4, of plain_module]
  note t2 = get_error_from_response_classifies[OF g1 g2 g3 g4, of ?m2]
  note t3 = get_error_from_response_classifies[OF g1 g2 g3 g4, of ?m3]
  have k2: "refining_keys ?m2 ?b2 = [''Outer'', ''Inner'']"
    and k3: "refining_keys ?m3 ?b2 = [''Outer'', ''Inner'']"
    by (simp_all add: refining_keys_def)
  have u: "[0..<2] = [0, Suc 0]" by (simp add: upt_rec)
  from t1 have r1: "get_error_from_response plain_module (JDict [(''error'', JDict ?e1)])
      = Inr (Some (RpcError (Provider RPCTimeoutError) (JStr ''Timeout'') (JDict ?e1)))"
    by (simp add: constructions_def refinements_def most_specific_def refining_keys_leaf
                  PROVIDER_CODE_TO_EXCEPTION_def plain_module_def)
  from t2 have r2: "get_error_from_response ?m2 (JDict [(''error'', JDict ?e2)])
      = Inr (Some (RpcError (Action ''InnerError'') (JDict [(''x'', JInt 1)]) (JDict ?e2)))"
    by (simp add: constructions_def refinements_def most_specific_def k2 u
                  PROVIDER_CODE_TO_EXCEPTION_def)
  from t3 have r3: "get_error_from_response ?m3 (JDict [(''error'', JDict ?e2)])
      = Inl (KeyError ''kind'')"
    by (simp add: constructions_def refinements_def most_specific_def k3 u
                  PROVIDER_CODE_TO_EXCEPTION_def)
  from r1 r2 r3 show ?thesis by simp
qed

theorem get_error_from_response_classifies_counterexample:
  "get_error_from_response plain_module
     (JDict [(''error'', JDict [(''cause'', JDict [(''name'', JStr ''UNKNOWN_BLOCK'')])])])
   = Inl (KeyError ''data'')"
  by (simp add: classify_def)

section \<open>The refresh cooldown over a sequence of calls\<close>

lemma probe_one_events: "set (snd (probe_one s a p)) \<subseteq> {e. is_get e \<or> is_log e}"
  by (cases p)
     (auto simp: on_probe_exception_def on_probe_rejected_def split: option.splits sum.splits)

lemma probe_loop_events: "set (snd (probe_loop s pr i as acc)) \<subseteq> {e. is_get e \<or> is_log e}"
proof (induction as arbitrary: i acc)
  case Nil
  then show ?case by simp
next
  case (Cons a as)
  show ?case
    using probe_one_events[of s a "pr i"] Cons.IH
    by (simp add: case_prod_unfold)
qed

lemma check_available_rpcs_no_spawn: "Spawn \<notin> set (snd (check_available_rpcs s pr))"
  using probe_loop_events[of s pr 0 "rpc_addresses s" "[]"]
  by (auto simp: check_available_rpcs_def case_prod_unfold)

lemma request_loop_events:
  "set (snd (request_loop po j i as)) \<subseteq> {e. is_post e \<or> (\<exists>x. e = Log (RpcErrorMsg x))}"
  by (induction as arbitrary: i) (auto simp: case_prod_unfold split: sum.splits if_splits)

lemma request_loop_no_refresh_events:
  "Spawn \<notin> set (snd (request_loop po j i as))"
  "Log NoRpcRechecking \<notin> set (snd (request_loop po j i as))"
  using request_loop_events[of po j i as] by auto

lemma call_rpc_request_refresh:
  assumes "call_rpc_request s w method params = (r, s1, evs)"
  shows "(available_rpcs s = [] \<longrightarrow> refresh_kind_of evs = Awaited)"
    and "(available_rpcs s \<noteq> [] \<and> last_rpc_addr_check s < now_check w - 30
           \<longrightarrow> refresh_kind_of evs = Background)"
    and "(available_rpcs s \<noteq> [] \<and> \<not> last_rpc_addr_check s < now_check w - 30
           \<longrightarrow> refresh_kind_of evs = NoRefresh \<and> s1 = s)"
    and "(refresh_kind_of evs \<noteq> NoRefresh \<longrightarrow> last_rpc_addr_check s1 = now_stamp w)"
    and "(refresh_kind_of evs = NoRefresh \<longrightarrow> last_rpc_addr_check s1 = last_rpc_addr_check s)"
proof -
  obtain r2 ev2 where l: "request_loop (posts w) (envelope method params) 0
      (available_rpcs (fst (freshness s w))) = (r2, ev2)"
    by (cases "request_loop (posts w) (envelope method params) 0
      (available_rpcs (fst (freshness s w)))")
  have n2: "Spawn \<notin> set ev2" "Log NoRpcRechecking \<notin> set ev2"
    using request_loop_no_refresh_events[of "posts w" "envelope method params" 0
        "available_rpcs (fst (freshness s w))"] l by simp_all
  have c: "call_rpc_request s w method params =
      (if available_rpcs (fst (freshness s w)) = []
       then (Inl (RpcNotAvailableError ''No RPC available''), fst (freshness s w), snd (freshness s w))
       else (r2, fst (freshness s w), snd (freshness s w) @ ev2))"
    using l by (simp add: call_rpc_request_def case_prod_unfold)
  consider (empty) "available_rpcs s = []"
    | (stale) "available_rpcs s \<noteq> []" "last_rpc_addr_check s < now_check w - 30"
    | (fresh) "available_rpcs s \<noteq> []" "\<not> last_rpc_addr_check s < now_check w - 30"
    by blast
  then have "(available_rpcs s = [] \<longrightarrow> refresh_kind_of evs = Awaited)
    \<and> (available_rpcs s \<noteq> [] \<and> last_rpc_addr_check s < now_check w - 30
           \<longrightarrow> refresh_kind_of evs = Background)
    \<and> (available_rpcs s \<noteq> [] \<and> \<not> last_rpc_addr_check s < now_check w - 30
           \<longrightarrow> refresh_kind_of evs = NoRefresh \<and> s1 = s)
    \<and> (refresh_kind_of evs \<noteq> NoRefresh \<longrightarrow> last_rpc_addr_check s1 = now_stamp w)
    \<and> (refresh_kind_of evs = NoRefresh \<longrightarrow> last_rpc_addr_check s1 = last_rpc_addr_check s)"
  proof cases
    case empty
    let ?s0 = "s\<lparr>last_rpc_addr_check := now_stamp w\<rparr>"
    have f: "freshness s w =
        (fst (check_available_rpcs ?s0 (probes w)),
         Log NoRpcRechecking # snd (check_available_rpcs ?s0 (probes w)))"
      using empty by (simp add: freshness_def case_prod_unfold Let_def)
    have ns: "Spawn \<notin> set (snd (check_available_rpcs ?s0 (probes w)))"
      by (rule check_available_rpcs_no_spawn)
    have la: "last_rpc_addr_check (fst (check_available_rpcs ?s0 (probes w))) = now_stamp w"
      by (simp add: check_available_rpcs_def case_prod_unfold)
    have "refresh_kind_of evs = Awaited" "last_rpc_addr_check s1 = now_stamp w"
      using assms c f ns n2 la by (auto simp: refresh_kind_of_def split: if_splits)
    with empty show ?thesis by simp
  next
    case stale
    have f: "freshness s w = (s\<lparr>last_rpc_addr_check := now_stamp w\<rparr>, [Spawn])"
      using stale by (simp add: freshness_def Let_def)
    have "refresh_kind_of evs = Background" "last_rpc_addr_check s1 = now_stamp w"
      using assms c f stale by (auto simp: refresh_kind_of_def split: if_splits)
    with stale show ?thesis by simp
  next
    case fresh
    have f: "freshness s w = (s, [])"
      using fresh by (simp add: freshness_def)
    have "refresh_kind_of evs = NoRefresh" "s1 = s"
      using assms c f fresh n2 by (auto simp: refresh_kind_of_def split: if_splits)
    with fresh show ?thesis by simp
  qed
  then show "(available_rpcs s = [] \<longrightarrow> refresh_kind_of evs = Awaited)"
    and "(available_rpcs s \<noteq> [] \<and> last_rpc_addr_check s < now_check w - 30
           \<longrightarrow> refresh_kind_of evs = Background)"
    and "(available_rpcs s \<noteq> [] \<and> \<not> last_rpc_addr_check s < now_check w - 30
           \<longrightarrow> refresh_kind_of evs = NoRefresh \<and> s1 = s)"
    and "(refresh_kind_of evs \<noteq> NoRefresh \<longrightarrow> last_rpc_addr_check s1 = now_stamp w)"
    and "(refresh_kind_of evs = NoRefresh \<longrightarrow> last_rpc_addr_check s1 = last_rpc_addr_check s)"
    by blast+
qed

lemma check_available_rpcs_last:
  "last_rpc_addr_check (fst (check_available_rpcs s pr)) = last_rpc_addr_check s"
  by (simp add: check_available_rpcs_def case_prod_unfold)

lemma later_background:
  "x \<le> last_rpc_addr_check s \<Longrightarrow> \<forall>t\<in>set (clock_readings acts). x \<le> t \<Longrightarrow>
   \<forall>h\<in>set (run_calls s acts). refresh h = Background \<longrightarrow> x + 30 < at_check h"
proof (induction acts arbitrary: s)
  case Nil
  then show ?case by simp
next
  case (Cons a acts)
  show ?case
  proof (cases a)
    case (Call w m p)
    obtain r s1 evs where c: "call_rpc_request s w m p = (r, s1, evs)"
      by (cases "call_rpc_request s w m p")
    note k = call_rpc_request_refresh[OF c]
    have x1: "x \<le> last_rpc_addr_check s1"
      using k(4,5) Cons.prems Call by (cases "refresh_kind_of evs = NoRefresh") auto
    have tl: "\<forall>h\<in>set (run_calls s1 acts). refresh h = Background \<longrightarrow> x + 30 < at_check h"
      using Cons.IH[OF x1] Cons.prems(2) Call by simp
    have hd: "refresh_kind_of evs = Background \<longrightarrow> x + 30 < now_check w"
    proof
      assume b: "refresh_kind_of evs = Background"
      have "available_rpcs s \<noteq> []" using k(1) b by auto
      moreover have "last_rpc_addr_check s < now_check w - 30"
        using k(3) b \<open>available_rpcs s \<noteq> []\<close> by auto
      ultimately show "x + 30 < now_check w" using Cons.prems(1) by simp
    qed
    show ?thesis using Call c tl hd by simp
  next
    case (RefreshDone pr)
    have "x \<le> last_rpc_addr_check (fst (check_available_rpcs s pr))"
      using Cons.prems(1) by (simp add: check_available_rpcs_last)
    from Cons.IH[OF this] Cons.prems(2) RefreshDone show ?thesis by simp
  qed
qed

lemma cooldown_sorted_wrt:
  "sorted (clock_readings acts) \<Longrightarrow>
   sorted_wrt (\<lambda>a b. refresh a \<noteq> NoRefresh \<and> refresh b = Background
                      \<longrightarrow> at_stamp a + 30 < at_check b)
              (run_calls s acts)"
proof (induction acts arbitrary: s)
  case Nil
  then show ?case by simp
next
  case (Cons a acts)
  show ?case
  proof (cases a)
    case (Call w m p)
    obtain r s1 evs where c: "call_rpc_request s w m p = (r, s1, evs)"
      by (cases "call_rpc_request s w m p")
    note k = call_rpc_request_refresh[OF c]
    have srt: "sorted (clock_readings acts)" and lb: "\<forall>t\<in>set (clock_readings acts). now_stamp w \<le> t"
      using Cons.prems Call by auto
    have "\<forall>h\<in>set (run_calls s1 acts). refresh h = Background \<longrightarrow> now_stamp w + 30 < at_check h"
      if "refresh_kind_of evs \<noteq> NoRefresh"
    proof -
      have "now_stamp w \<le> last_rpc_addr_check s1" using k(4) that by simp
      from later_background[OF this lb] show ?thesis .
    qed
    then show ?thesis using Call c Cons.IH[OF srt, of s1] by auto
  next
    case (RefreshDone pr)
    then show ?thesis using Cons by simp
  qed
qed

lemma call_rpc_request_empty_state:
  "available_rpcs s = [] \<Longrightarrow>
   fst (snd (call_rpc_request s w method params)) =
     fst (check_available_rpcs (s\<lparr>last_rpc_addr_check := now_stamp w\<rparr>) (probes w))"
  by (simp add: call_rpc_request_def freshness_def Let_def case_prod_unfold)

text \<open>
  Claim C7. Take any run of dispatch calls, with refreshes completing between them, whose
  clock readings never go back. Whenever a call triggers a refresh and a later call
  triggers a background refresh (one that found the available list not empty), the
  later call read the clock more than 30 seconds after the time stamp the earlier one
  set: the cooldown admits at most one such refresh per 30 seconds. A call that finds
  the list empty awaits a refresh whatever the time stamp is, and goes on with the
  provider that refresh leaves; a call that finds the list not empty spawns a refresh
  when the time stamp is more than 30 seconds old, and otherwise triggers none and
  leaves the provider as it is.
\<close>

theorem refresh_cooldown:
  assumes "sorted (clock_readings acts)"
  shows "(\<forall>i j. i < j \<and> j < length (run_calls s acts)
              \<and> refresh (run_calls s acts ! i) \<noteq> NoRefresh
              \<and> refresh (run_calls s acts ! j) = Background
            \<longrightarrow> at_stamp (run_calls s acts ! i) + 30 < at_check (run_calls s acts ! j))
       \<and> (available_rpcs s = []
            \<longrightarrow> refresh_kind_of (snd (snd (call_rpc_request s w method params))) = Awaited
              \<and> fst (snd (call_rpc_request s w method params)) =
                  fst (check_available_rpcs (s\<lparr>last_rpc_addr_check := now_stamp w\<rparr>) (probes w)))
       \<and> (available_rpcs s \<noteq> [] \<and> last_rpc_addr_check s < now_check w - 30
            \<longrightarrow> refresh_kind_of (snd (snd (call_rpc_request s w method params))) = Background)
       \<and> (available_rpcs s \<noteq> [] \<and> \<not> last_rpc_addr_check s < now_check w - 30
            \<longrightarrow> refresh_kind_of (snd (snd (call_rpc_request s w method params))) = NoRefresh
              \<and> fst (snd (call_rpc_request s w method params)) = s)"
proof -
  obtain r s1 evs where c: "call_rpc_request s w method params = (r, s1, evs)"
    by (cases "call_rpc_request s w method params")
  note k = call_rpc_request_refresh[OF c]
  have "\<forall>i j. i < j \<and> j < length (run_calls s acts)
              \<and> refresh (run_calls s acts ! i) \<noteq> NoRefresh
              \<and> refresh (run_calls s acts ! j) = Background
            \<longrightarrow> at_stamp (run_calls s acts ! i) + 30 < at_check (run_calls s acts ! j)"
    using cooldown_sorted_wrt[OF assms, of s] by (simp add: sorted_wrt_iff_nth_less)
  moreover have "available_rpcs s = [] \<longrightarrow>
      fst (snd (call_rpc_request s w method params)) =
        fst (check_available_rpcs (s\<lparr>last_rpc_addr_check := now_stamp w\<rparr>) (probes w))"
    by (simp add: call_rpc_request_empty_state)
  ultimately show ?thesis using k(1,2,3) c by simp
qed

theorem refresh_cooldown_witness:
  "sorted (clock_readings
     [Call \<lparr>now_check = 100, now_stamp = 101, probes = (\<lambda>i. ProbeRaised ConnectionError),
            posts = (\<lambda>i. Response 200 (Some (JDict [(''result'', JInt 1)])))\<rparr> ''block'' JNull,
      RefreshDone (\<lambda>i. ProbeResponse 200
            (Some (JDict [(''sync_info'', JDict [(''syncing'', JBool False)])])) 1),
      Call \<lparr>now_check = 110, now_stamp = 111, probes = (\<lambda>i. ProbeRaised ConnectionError),
            posts = (\<lambda>i. Response 200 (Some (JDict [(''result'', JInt 1)])))\<rparr> ''block'' JNull,
      Call \<lparr>now_check = 140, now_stamp = 141, probes = (\<lambda>i. ProbeRaised ConnectionError),
            posts = (\<lambda>i. Response 200 (Some (JDict [(''result'', JInt 1)])))\<rparr> ''block'' JNull])
   \<and> run_calls \<lparr>rpc_addresses = [''a''], available_rpcs = [''a''], last_rpc_addr_check = 0\<rparr>
     [Call \<lparr>now_check = 100, now_stamp = 101, probes = (\<lambda>i. ProbeRaised ConnectionError),
            posts = (\<lambda>i. Response 200 (Some (JDict [(''result'', JInt 1)])))\<rparr> ''block'' JNull,
      RefreshDone (\<lambda>i. ProbeResponse 200
            (Some (JDict [(''sync_info'', JDict [(''syncing'', JBool False)])])) 1),
      Call \<lparr>now_check = 110, now_stamp = 111, probes = (\<lambda>i. ProbeRaised ConnectionError),
            posts = (\<lambda>i. Response 200 (Some (JDict [(''result'', JInt 1)])))\<rparr> ''block'' JNull,
      Call \<lparr>now_check = 140, now_stamp = 141, probes = (\<lambda>i. ProbeRaised ConnectionError),
            posts = (\<lambda>i. Response 200 (Some (JDict [(''result'', JInt 1)])))\<rparr> ''block'' JNull]
     = [\<lparr>at_check = 100, at_stamp = 101, refresh = Background\<rparr>,
        \<lparr>at_check = 110, at_stamp = 111, refresh = NoRefresh\<rparr>,
        \<lparr>at_check = 140, at_stamp = 141, refresh = Background\<rparr>]
   \<and> (101::real) + 30 < 140
   \<and> refresh_kind_of (snd (snd (call_rpc_request
        \<lparr>rpc_addresses = [''a''], available_rpcs = [], last_rpc_addr_check = 139\<rparr>
        \<lparr>now_check = 140, now_stamp = 141, probes = (\<lambda>i. ProbeRaised ConnectionError),
            posts = (\<lambda>i. Response 200 (Some (JDict [(''result'', JInt 1)])))\<rparr>
        ''block'' JNull))) = Awaited"
proof -
  let ?w1 = "\<lparr>now_check = 100, now_stamp = 101, probes = (\<lambda>i. ProbeRaised ConnectionError),
            posts = (\<lambda>i. Response 200 (Some (JDict [(''result'', JInt 1)])))\<rparr>"
  let ?w2 = "\<lparr>now_check = 110, now_stamp = 111, probes = (\<lambda>i. ProbeRaised ConnectionError),
            posts = (\<lambda>i. Response 200 (Some (JDict [(''result'', JInt 1)])))\<rparr>"
  let ?w3 = "\<lparr>now_check = 140, now_stamp = 141, probes = (\<lambda>i. ProbeRaised ConnectionError),
            posts = (\<lambda>i. Response 200 (Some (JDict [(''result'', JInt 1)])))\<rparr>"
  let ?pr = "\<lambda>i::nat. ProbeResponse 200
            (Some (JDict [(''sync_info'', JDict [(''syncing'', JBool False)])])) 1"
  let ?acts = "[Call ?w1 ''block'' JNull, RefreshDone ?pr, Call ?w2 ''block'' JNull,
                Call ?w3 ''block'' JNull]"
  let ?s = "\<lparr>rpc_addresses = [''a''], available_rpcs = [''a''], last_rpc_addr_check = 0\<rparr>"
  let ?e = "\<lparr>rpc_addresses = [''a''], available_rpcs = [], last_rpc_addr_check = 139\<rparr>"
  have srt: "sorted (clock_readings ?acts)" by simp
  have run: "run_calls ?s ?acts =
      [\<lparr>at_check = 100, at_stamp = 101, refresh = Background\<rparr>,
        \<lparr>at_check = 110, at_stamp = 111, refresh = NoRefresh\<rparr>,
        \<lparr>at_check = 140, at_stamp = 141, refresh = Background\<rparr>]"
    by (simp add: call_rpc_request_def freshness_def Let_def refresh_kind_of_def envelope_def
                  check_available_rpcs_def syncing_of_def)
  have emp: "available_rpcs ?e = []" by simp
  from refresh_cooldown[OF srt, of ?s]
       refresh_cooldown[OF srt, of ?e ?w3 "''block''" JNull]
  have "(\<forall>i j. i < j \<and> j < length (run_calls ?s ?acts)
              \<and> refresh (run_calls ?s ?acts ! i) \<noteq> NoRefresh
              \<and> refresh (run_calls ?s ?acts ! j) = Background
            \<longrightarrow> at_stamp (run_calls ?s ?acts ! i) + 30 < at_check (run_calls ?s ?acts ! j))"
    and aw: "refresh_kind_of (snd (snd (call_rpc_request ?e ?w3 ''block'' JNull))) = Awaited"
    using emp by blast+
  then have "0 < (2::nat) \<and> 2 < length (run_calls ?s ?acts)
              \<and> refresh (run_calls ?s ?acts ! 0) \<noteq> NoRefresh
              \<and> refresh (run_calls ?s ?acts ! 2) = Background
            \<longrightarrow> at_stamp (run_calls ?s ?acts ! 0) + 30 < at_check (run_calls ?s ?acts ! 2)"
    by blast
  then have "(101::real) + 30 < 140" by (simp add: run)
  with srt run aw show ?thesis by simp
qed

section \<open>The refresh as a task: the list is replaced in one step\<close>

lemma refresh_step_frame:
  "i < length (rpc_addresses g) \<Longrightarrow> fst (refresh_step pr g (Running i acc)) = g"
  by (simp add: case_prod_unfold)

lemma refresh_step_final:
  "\<not> i < length (rpc_addresses g) \<Longrightarrow>
   refresh_step pr g (Running i acc) = (g\<lparr>available_rpcs := map fst (sort_key snd acc)\<rparr>, Done, [])"
  by simp

lemma collected_Suc:
  "collected cands pr (Suc i) =
     (case fst (probe_one g (cands ! i) (pr i)) of
        None \<Rightarrow> collected cands pr i
      | Some p \<Rightarrow> collected cands pr i @ [p])"
  by (simp add: collected_def probe_one_fst)

lemma check_available_rpcs_collected:
  "available_rpcs (fst (check_available_rpcs s pr)) =
     map fst (sort_key snd (collected (rpc_addresses s) pr (length (rpc_addresses s))))"
  by (simp add: check_available_rpcs_list collected_def sort_key_map comp_def)

lemma task_inv_step:
  assumes "task_inv s pr g t"
  shows "task_inv s pr (fst (refresh_step pr g t)) (fst (snd (refresh_step pr g t)))"
proof (cases t)
  case Done
  with assms show ?thesis by (simp add: task_inv_def)
next
  case (Running i acc)
  with assms have inv: "rpc_addresses g = rpc_addresses s" "i \<le> length (rpc_addresses s)"
    "acc = collected (rpc_addresses s) pr i" "available_rpcs g = available_rpcs s"
    by (simp_all add: task_inv_def)
  show ?thesis
  proof (cases "i < length (rpc_addresses g)")
    case True
    then show ?thesis
      using Running inv collected_Suc[of "rpc_addresses s" pr i g]
      by (simp add: task_inv_def case_prod_unfold)
  next
    case False
    with inv have "i = length (rpc_addresses s)" by simp
    with False Running inv show ?thesis
      by (simp add: task_inv_def check_available_rpcs_collected)
  qed
qed

lemma task_inv_stamp:
  "task_inv s pr g t \<Longrightarrow> task_inv s pr (g\<lparr>last_rpc_addr_check := now\<rparr>) t"
  by (cases t) (simp_all add: task_inv_def)

lemma task_inv_lists:
  "task_inv s pr g t \<Longrightarrow>
     available_rpcs g = available_rpcs s \<or>
     available_rpcs g = available_rpcs (fst (check_available_rpcs s pr))"
  by (cases t) (auto simp: task_inv_def)

lemma run_sched_lists:
  "task_inv s pr g t \<Longrightarrow>
   \<forall>g'\<in>set (fst (run_sched pr sch g t)).
      available_rpcs g' = available_rpcs s \<or>
      available_rpcs g' = available_rpcs (fst (check_available_rpcs s pr))"
proof (induction sch arbitrary: g t)
  case Nil
  then show ?case by simp
next
  case (Cons a sch)
  show ?case
  proof (cases a)
    case RefreshStep
    have i1: "task_inv s pr (fst (refresh_step pr g t)) (fst (snd (refresh_step pr g t)))"
      using Cons.prems by (rule task_inv_step)
    from Cons.IH[OF i1] task_inv_lists[OF i1] RefreshStep show ?thesis
      by (simp add: case_prod_unfold)
  next
    case (DispatchStamp now)
    have i1: "task_inv s pr (g\<lparr>last_rpc_addr_check := now\<rparr>) t"
      using Cons.prems by (rule task_inv_stamp)
    from Cons.IH[OF i1] task_inv_lists[OF i1] DispatchStamp show ?thesis
      by (simp add: case_prod_unfold)
  qed
qed

lemma task_inv_start: "task_inv s pr s (Running 0 [])"
  by (simp add: task_inv_def collected_def)

lemma run_sched_unscheduled:
  "i \<le> length (rpc_addresses g) \<Longrightarrow> k = length (rpc_addresses g) - i \<Longrightarrow>
   run_sched pr (replicate (Suc k) RefreshStep) g (Running i acc) =
     (replicate k g @
        [g\<lparr>available_rpcs :=
             map fst (sort_key snd (fst (probe_loop g pr i (drop i (rpc_addresses g)) acc)))\<rparr>],
      snd (probe_loop g pr i (drop i (rpc_addresses g)) acc))"
proof (induction k arbitrary: i acc)
  case 0
  then have "i = length (rpc_addresses g)" by simp
  then show ?case by simp
next
  case (Suc k)
  then have lt: "i < length (rpc_addresses g)" and k: "k = length (rpc_addresses g) - Suc i"
    and le: "Suc i \<le> length (rpc_addresses g)" by simp_all
  have d: "drop i (rpc_addresses g) = rpc_addresses g ! i # drop (Suc i) (rpc_addresses g)"
    using lt by (simp add: Cons_nth_drop_Suc)
  obtain r ev where p: "probe_one g (rpc_addresses g ! i) (pr i) = (r, ev)"
    by (cases "probe_one g (rpc_addresses g ! i) (pr i)")
  have st: "refresh_step pr g (Running i acc) =
      (g, Running (Suc i) (case r of None \<Rightarrow> acc | Some p \<Rightarrow> acc @ [p]), ev)"
    using lt p by simp
  have "run_sched pr (replicate (Suc (Suc k)) RefreshStep) g (Running i acc) =
      (case run_sched pr (replicate (Suc k) RefreshStep) g
                (Running (Suc i) (case r of None \<Rightarrow> acc | Some p \<Rightarrow> acc @ [p])) of
         (gs, evs) \<Rightarrow> (g # gs, ev @ evs))"
    using st by simp
  also have "\<dots> = (replicate (Suc k) g @
        [g\<lparr>available_rpcs :=
             map fst (sort_key snd (fst (probe_loop g pr i (drop i (rpc_addresses g)) acc)))\<rparr>],
      snd (probe_loop g pr i (drop i (rpc_addresses g)) acc))"
    using Suc.IH[OF le k, of "case r of None \<Rightarrow> acc | Some p \<Rightarrow> acc @ [p]"] d p
    by (simp add: case_prod_unfold)
  finally show ?case .
qed

text \<open>
  Claim C8. Let the refresh run as a task from the provider \<open>s\<close>, its steps interleaved
  in any way with the time stamps that concurrent dispatch calls write. Every provider
  state of the run holds, as its available list, the whole list of \<open>s\<close> or the whole list
  that \<open>check_available_rpcs\<close> computes; a dispatch call scheduled at such a state POSTs
  to the first endpoints of one of these two lists. A step of the loop of the refresh
  changes nothing of the provider (the list under construction is a local variable of
  the task), and the steps of the task, run without interruption, are
  \<open>check_available_rpcs\<close>. The loop of a dispatch call goes over the list object it read
  when it started: the refresh binds a new list to the attribute and never mutates the
  old one, so the list of a call is a value fixed at its start, as in \<open>request_loop\<close>.
\<close>

theorem snapshot_replaced_atomically:
  "(\<forall>g\<in>set (fst (run_sched pr sch s (Running 0 []))).
      (available_rpcs g = available_rpcs s \<or>
       available_rpcs g = available_rpcs (fst (check_available_rpcs s pr)))
      \<and> (available_rpcs g \<noteq> [] \<longrightarrow>
           (\<exists>k. List.map_filter post_addr (snd (snd (call_rpc_request g w method params)))
                   = take k (available_rpcs s)
              \<or> List.map_filter post_addr (snd (snd (call_rpc_request g w method params)))
                   = take k (available_rpcs (fst (check_available_rpcs s pr))))))
 \<and> (\<forall>i acc g. i < length (rpc_addresses g) \<longrightarrow> fst (refresh_step pr g (Running i acc)) = g)
 \<and> run_sched pr (replicate (Suc (length (rpc_addresses s))) RefreshStep) s (Running 0 [])
     = (replicate (length (rpc_addresses s)) s @ [fst (check_available_rpcs s pr)],
        snd (check_available_rpcs s pr))"
proof (intro conjI ballI allI impI)
  fix g assume g: "g \<in> set (fst (run_sched pr sch s (Running 0 [])))"
  show l: "available_rpcs g = available_rpcs s \<or>
       available_rpcs g = available_rpcs (fst (check_available_rpcs s pr))"
    using run_sched_lists[OF task_inv_start, where sch = sch] g by blast
  assume ne: "available_rpcs g \<noteq> []"
  obtain s1 ev1 where f: "freshness g w = (s1, ev1)" by (cases "freshness g w")
  with freshness_nonempty[OF ne, of w]
  have s1: "available_rpcs s1 = available_rpcs g" and ev1: "List.map_filter post_addr ev1 = []"
    by simp_all
  obtain k where k: "List.map_filter post_addr
      (snd (request_loop (posts w) (envelope method params) 0 (available_rpcs g)))
      = take k (available_rpcs g)"
    using request_loop_posts_prefix[of "available_rpcs g" "posts w" "envelope method params" 0]
    by blast
  have "List.map_filter post_addr (snd (snd (call_rpc_request g w method params)))
      = take k (available_rpcs g)"
    using f s1 ev1 ne k by (simp add: call_rpc_request_def case_prod_unfold map_filter_append)
  with l show "\<exists>k. List.map_filter post_addr (snd (snd (call_rpc_request g w method params)))
                   = take k (available_rpcs s)
              \<or> List.map_filter post_addr (snd (snd (call_rpc_request g w method params)))
                   = take k (available_rpcs (fst (check_available_rpcs s pr)))"
    by metis
next
  fix i acc and g :: provider assume "i < length (rpc_addresses g)"
  then show "fst (refresh_step pr g (Running i acc)) = g" by (rule refresh_step_frame)
next
  show "run_sched pr (replicate (Suc (length (rpc_addresses s))) RefreshStep) s (Running 0 [])
     = (replicate (length (rpc_addresses s)) s @ [fst (check_available_rpcs s pr)],
        snd (check_available_rpcs s pr))"
    using run_sched_unscheduled[of 0 s "length (rpc_addresses s)" pr "[]"]
    by (simp add: check_available_rpcs_def case_prod_unfold)
qed

theorem snapshot_replaced_atomically_witness:
  "map available_rpcs (fst (run_sched
      (\<lambda>i. if i = 0
           then ProbeResponse 200 (Some (JDict [(''sync_info'', JDict [(''syncing'', JBool True)])])) 5
           else if i = 1
           then ProbeResponse 200 (Some (JDict [(''sync_info'', JDict [(''syncing'', JBool False)])])) 50
           else ProbeResponse 200 (Some (JDict [(''sync_info'', JDict [(''syncing'', JBool False)])])) 10)
      [RefreshStep, DispatchStamp 7, RefreshStep, RefreshStep, RefreshStep]
      \<lparr>rpc_addresses = [''A'', ''B'', ''C''], available_rpcs = [''A'', ''B'', ''C''], last_rpc_addr_check = 0\<rparr>
      (Running 0 [])))
   = [[''A'', ''B'', ''C''], [''A'', ''B'', ''C''], [''A'', ''B'', ''C''], [''A'', ''B'', ''C''],
      [''C'', ''B'']]
 \<and> available_rpcs (fst (check_available_rpcs
      \<lparr>rpc_addresses = [''A'', ''B'', ''C''], available_rpcs = [''A'', ''B'', ''C''], last_rpc_addr_check = 0\<rparr>
      (\<lambda>i. if i = 0
           then ProbeResponse 200 (Some (JDict [(''sync_info'', JDict [(''syncing'', JBool True)])])) 5
           else if i = 1
           then ProbeResponse 200 (Some (JDict [(''sync_info'', JDict [(''syncing'', JBool False)])])) 50
           else ProbeResponse 200 (Some (JDict [(''sync_info'', JDict [(''syncing'', JBool False)])])) 10))) = [''C'', ''B'']
 \<and> List.map_filter post_addr (snd (snd (call_rpc_request
      \<lparr>rpc_addresses = [''A'', ''B'', ''C''], available_rpcs = [''C'', ''B''], last_rpc_addr_check = 7\<rparr>
      \<lparr>now_check = 8, now_stamp = 8, probes = (\<lambda>i. ProbeRaised ConnectionError),
      posts = (\<lambda>i. if i = 0 then Raised ConnectionError
                     else Response 200 (Some (JDict [(''result'', JInt 1)])))\<rparr> ''block'' JNull))) = [''C'', ''B'']"
proof -
  let ?s = "\<lparr>rpc_addresses = [''A'', ''B'', ''C''], available_rpcs = [''A'', ''B'', ''C''], last_rpc_addr_check = 0\<rparr>"
  let ?pr = "(\<lambda>i. if i = 0
           then ProbeResponse 200 (Some (JDict [(''sync_info'', JDict [(''syncing'', JBool True)])])) 5
           else if i = 1
           then ProbeResponse 200 (Some (JDict [(''sync_info'', JDict [(''syncing'', JBool False)])])) 50
           else ProbeResponse 200 (Some (JDict [(''sync_info'', JDict [(''syncing'', JBool False)])])) 10)"
  let ?sch = "[RefreshStep, DispatchStamp 7, RefreshStep, RefreshStep, RefreshStep]"
  let ?w = "\<lparr>now_check = 8, now_stamp = 8, probes = (\<lambda>i. ProbeRaised ConnectionError),
      posts = (\<lambda>i. if i = 0 then Raised ConnectionError
                     else Response 200 (Some (JDict [(''result'', JInt 1)])))\<rparr>"
  let ?g = "\<lparr>rpc_addresses = [''A'', ''B'', ''C''], available_rpcs = [''C'', ''B''], last_rpc_addr_check = 7\<rparr>"
  have run: "fst (run_sched ?pr ?sch ?s (Running 0 [])) =
      [?s, ?s\<lparr>last_rpc_addr_check := 7\<rparr>, ?s\<lparr>last_rpc_addr_check := 7\<rparr>,
       ?s\<lparr>last_rpc_addr_check := 7\<rparr>, ?g]"
    by (simp add: syncing_of_def on_probe_rejected_def on_probe_exception_def)
  have new: "available_rpcs (fst (check_available_rpcs ?s ?pr)) = [''C'', ''B'']"
    by (simp add: check_available_rpcs_def syncing_of_def on_probe_rejected_def
                  on_probe_exception_def)
  have g: "?g \<in> set (fst (run_sched ?pr ?sch ?s (Running 0 [])))"
    unfolding run by simp
  have ne: "available_rpcs ?g \<noteq> []" by simp
  from snapshot_replaced_atomically[of ?pr ?sch ?s ?w "''block''" JNull] g ne
  have "\<exists>k. List.map_filter post_addr (snd (snd (call_rpc_request ?g ?w ''block'' JNull)))
                   = take k (available_rpcs ?s)
              \<or> List.map_filter post_addr (snd (snd (call_rpc_request ?g ?w ''block'' JNull)))
                   = take k (available_rpcs (fst (check_available_rpcs ?s ?pr)))"
    by blast
  moreover have "List.map_filter post_addr (snd (snd (call_rpc_request ?g ?w ''block'' JNull)))
      = [''C'', ''B'']"
    by (simp add: call_rpc_request_def freshness_def)
  ultimately show ?thesis using run new by simp
qed

section \<open>Reading the logs of a TransactionResult\<close>

lemma fold_extend:
  "l \<notin> set (map logs ros) \<Longrightarrow>
   fold (\<lambda>ro. list_extend l (logs ro)) ros h = h(l := h l @ concat (map (\<lambda>ro. h (logs ro)) ros))"
proof (induction ros arbitrary: h)
  case Nil
  then show ?case by simp
next
  case (Cons ro ros)
  let ?h = "list_extend l (logs ro) h"
  have l: "l \<notin> set (map logs ros)" and ne: "logs ro \<noteq> l" using Cons.prems by auto
  have m: "map (\<lambda>x. ?h (logs x)) ros = map (\<lambda>x. h (logs x)) ros"
    using l by (auto simp: list_extend_def)
  have hl: "?h l = h l @ h (logs ro)" by (simp add: list_extend_def)
  have "fold (\<lambda>ro. list_extend l (logs ro)) (ro # ros) h =
        fold (\<lambda>ro. list_extend l (logs ro)) ros ?h"
    by simp
  also have "\<dots> = ?h(l := ?h l @ concat (map (\<lambda>x. ?h (logs x)) ros))"
    by (rule Cons.IH[OF l])
  also have "\<dots> = ?h(l := (h l @ h (logs ro)) @ concat (map (\<lambda>x. h (logs x)) ros))"
    by (simp only: m hl)
  also have "\<dots> = h(l := h l @ concat (map (\<lambda>x. h (logs x)) (ro # ros)))"
    by (simp add: list_extend_def)
  finally show ?case .
qed

lemma TransactionResult_logs_first_read:
  assumes "logs (transaction_outcome tr) \<notin> set (map logs (receipt_outcome tr))"
  shows "TransactionResult_logs h tr =
           (logs (transaction_outcome tr),
            h(logs (transaction_outcome tr) :=
                h (logs (transaction_outcome tr)) @
                concat (map (\<lambda>ro. h (logs ro)) (receipt_outcome tr))))"
  using fold_extend[OF assms, of h] by (simp add: TransactionResult_logs_def Let_def)

text \<open>
  Claim C9 at a concrete object: the transaction outcome holds the log list
  \<open>["tx"]\<close>, the two receipt outcomes hold \<open>["r1"]\<close> and \<open>["r2"]\<close>. The first read of
  \<open>logs\<close> returns the list object of the transaction outcome, which now holds
  \<open>["tx", "r1", "r2"]\<close>: the read has changed \<open>transaction_outcome.logs\<close>. The second
  read returns the same object, which now holds \<open>["tx", "r1", "r2", "r1", "r2"]\<close>: the
  logs of the receipts twice.
\<close>

theorem TransactionResult_logs_second_read:
  "(case TransactionResult_logs
           ((\<lambda>r. [])(0 := [''tx''], 1 := [''r1''], 2 := [''r2'']))
           \<lparr>receipt_outcome =
              [\<lparr>logs = 1, metadata = JNull, receipt_ids = JList [], status = JDict [],
                tokens_burnt = JStr ''0'', gas_burnt = JInt 0\<rparr>,
               \<lparr>logs = 2, metadata = JNull, receipt_ids = JList [], status = JDict [],
                tokens_burnt = JStr ''0'', gas_burnt = JInt 0\<rparr>],
            transaction_outcome =
              \<lparr>logs = 0, metadata = JNull, receipt_ids = JList [], status = JDict [],
               tokens_burnt = JStr ''0'', gas_burnt = JInt 0\<rparr>,
            tx_status = JDict [], transaction = JDict []\<rparr> of
      (l1, h1) \<Rightarrow>
        (case TransactionResult_logs h1
           \<lparr>receipt_outcome =
              [\<lparr>logs = 1, metadata = JNull, receipt_ids = JList [], status = JDict [],
                tokens_burnt = JStr ''0'', gas_burnt = JInt 0\<rparr>,
               \<lparr>logs = 2, metadata = JNull, receipt_ids = JList [], status = JDict [],
                tokens_burnt = JStr ''0'', gas_burnt = JInt 0\<rparr>],
            transaction_outcome =
              \<lparr>logs = 0, metadata = JNull, receipt_ids = JList [], status = JDict [],
               tokens_burnt = JStr ''0'', gas_burnt = JInt 0\<rparr>,
            tx_status = JDict [], transaction = JDict []\<rparr> of
           (l2, h2) \<Rightarrow>
             (l1, h1 l1, h1 0, l2, h2 l2, h2 0)))
   = (0, [''tx'', ''r1'', ''r2''], [''tx'', ''r1'', ''r2''],
      0, [''tx'', ''r1'', ''r2'', ''r1'', ''r2''], [''tx'', ''r1'', ''r2'', ''r1'', ''r2''])"
  by (simp add: TransactionResult_logs_def list_extend_def Let_def)

section \<open>The polling fallback of send_tx_and_wait\<close>

lemma is_sleep_only:
  "is_sleep e \<Longrightarrow> \<not> is_post e \<and> \<not> is_get e \<and> \<not> is_log e \<and> (\<forall>x. e \<noteq> Log x)"
  by (cases e) simp_all

lemma call_rpc_request_no_sleep: "filter is_sleep (snd (snd (call_rpc_request s w method params))) = []"
proof -
  have a: "filter is_sleep (snd (request_loop po j i as)) = []" for po j i as
    using request_loop_events[of po j i as] is_sleep_only
    by (fastforce simp: filter_empty_conv)
  have b: "filter is_sleep (snd (check_available_rpcs g pr)) = []" for g pr
    using probe_loop_events[of g pr 0 "rpc_addresses g" "[]"] is_sleep_only
    by (fastforce simp: filter_empty_conv check_available_rpcs_def case_prod_unfold)
  have c: "filter is_sleep (snd (freshness s w)) = []"
    by (simp add: freshness_def Let_def case_prod_unfold b)
  show ?thesis by (simp add: call_rpc_request_def case_prod_unfold a c)
qed

lemma json_rpc_events:
  "snd (snd (json_rpc xm s w method params)) = snd (snd (call_rpc_request s w method params))"
  by (cases "call_rpc_request s w method params")
     (auto simp: json_rpc_def split: sum.splits option.splits)

lemma poll_step_no_sleep:
  "filter is_sleep (snd (snd (poll_step build xm ws h r i s))) = []"
proof -
  have "snd (snd (get_tx build xm g w h r)) = snd (snd (json_rpc xm g w ''tx'' (JList [JStr h, JStr r])))"
    for g w
    by (cases "json_rpc xm g w ''tx'' (JList [JStr h, JStr r])")
       (auto simp: get_tx_def split: sum.splits)
  then show ?thesis
    by (simp add: poll_step_def json_rpc_events call_rpc_request_no_sleep)
qed

lemma poll_outcome_0:
  "poll_outcome build xm ws h r i s 0 = fst (poll_step build xm ws h r i s)"
  by (simp add: poll_outcome_def)

lemma poll_outcome_Suc:
  "poll_outcome build xm ws h r i s (Suc j) =
     poll_outcome build xm ws h r (Suc i) (fst (snd (poll_step build xm ws h r i s))) j"
  by (simp add: poll_outcome_def)

lemma poll_all_fail:
  "(\<forall>j<n. isl (poll_outcome build xm ws h r i s j)) \<Longrightarrow>
   fst (poll build xm ws h r n i s) = None \<and>
   filter is_sleep (snd (snd (poll build xm ws h r n i s))) = replicate n (Sleep 3)"
proof (induction n arbitrary: i s)
  case 0
  then show ?case by simp
next
  case (Suc n)
  obtain res s1 evs where p: "poll_step build xm ws h r i s = (res, s1, evs)"
    by (cases "poll_step build xm ws h r i s")
  have "isl (poll_outcome build xm ws h r i s 0)" using Suc.prems by blast
  then obtain e where e: "res = Inl e" using p by (cases res) (auto simp: poll_outcome_0)
  have "\<forall>j<n. isl (poll_outcome build xm ws h r (Suc i) s1 j)"
    using Suc.prems p by (metis Suc_less_eq poll_outcome_Suc fst_conv snd_conv)
  from Suc.IH[OF this] p e poll_step_no_sleep[of build xm ws h r i s]
  show ?case by (simp add: case_prod_unfold)
qed

lemma poll_first_success:
  "k < n \<Longrightarrow> poll_outcome build xm ws h r i s k = Inr result \<Longrightarrow>
   (\<forall>j<k. isl (poll_outcome build xm ws h r i s j)) \<Longrightarrow>
   fst (poll build xm ws h r n i s) = Some result \<and>
   filter is_sleep (snd (snd (poll build xm ws h r n i s))) = replicate (Suc k) (Sleep 3)"
proof (induction n arbitrary: i s k)
  case 0
  then show ?case by simp
next
  case (Suc n)
  obtain res s1 evs where p: "poll_step build xm ws h r i s = (res, s1, evs)"
    by (cases "poll_step build xm ws h r i s")
  show ?case
  proof (cases k)
    case 0
    with Suc.prems(2) p have "res = Inr result" by (simp add: poll_outcome_0)
    with p 0 poll_step_no_sleep[of build xm ws h r i s] show ?thesis by simp
  next
    case (Suc k')
    have "isl (poll_outcome build xm ws h r i s 0)" using Suc.prems(3) Suc by blast
    then obtain e where e: "res = Inl e" using p by (cases res) (auto simp: poll_outcome_0)
    have a1: "k' < n" using Suc.prems(1) Suc by simp
    have a2: "poll_outcome build xm ws h r (Suc i) s1 k' = Inr result"
      using Suc.prems(2) Suc p by (simp add: poll_outcome_Suc)
    have a3: "\<forall>j<k'. isl (poll_outcome build xm ws h r (Suc i) s1 j)"
      using Suc.prems(3) Suc p by (metis Suc_less_eq poll_outcome_Suc fst_conv snd_conv)
    from Suc.IH[OF a1 a2 a3] p e Suc poll_step_no_sleep[of build xm ws h r i s]
    show ?thesis by (simp add: case_prod_unfold)
  qed
qed

lemma poll_sleeps_bound:
  "length (filter is_sleep (snd (snd (poll build xm ws h r n i s)))) \<le> n \<and>
   set (filter is_sleep (snd (snd (poll build xm ws h r n i s)))) \<subseteq> {Sleep 3}"
proof (induction n arbitrary: i s)
  case 0
  then show ?case by simp
next
  case (Suc n)
  obtain res s1 evs where p: "poll_step build xm ws h r i s = (res, s1, evs)"
    by (cases "poll_step build xm ws h r i s")
  show ?case
    using Suc.IH[of "Suc i" s1] p poll_step_no_sleep[of build xm ws h r i s]
    by (cases res) (auto simp: case_prod_unfold)
qed

lemma poll_events_0:
  "poll_events build xm ws h r i s 0 = snd (snd (poll_step build xm ws h r i s))"
  by (simp add: poll_events_def)

lemma poll_events_Suc:
  "poll_events build xm ws h r i s (Suc j) =
     poll_events build xm ws h r (Suc i) (fst (snd (poll_step build xm ws h r i s))) j"
  by (simp add: poll_events_def)

lemma turns_unfold:
  "concat (map (\<lambda>j. Sleep 3 # poll_events build xm ws h r i s j) [0..<Suc m]) =
     Sleep 3 # snd (snd (poll_step build xm ws h r i s)) @
     concat (map (\<lambda>j. Sleep 3 # poll_events build xm ws h r (Suc i)
                                    (fst (snd (poll_step build xm ws h r i s))) j) [0..<m])"
proof -
  have "[0..<Suc m] = 0 # map Suc [0..<m]"
    by (simp add: upt_conv_Cons map_Suc_upt del: upt_Suc)
  then show ?thesis
    by (simp add: poll_events_0 poll_events_Suc comp_def del: upt_Suc)
qed

lemma poll_trace_all_fail:
  "(\<forall>j<n. isl (poll_outcome build xm ws h r i s j)) \<Longrightarrow>
   snd (snd (poll build xm ws h r n i s)) =
     concat (map (\<lambda>j. Sleep 3 # poll_events build xm ws h r i s j) [0..<n])"
proof (induction n arbitrary: i s)
  case 0
  then show ?case by simp
next
  case (Suc n)
  obtain res s1 evs where p: "poll_step build xm ws h r i s = (res, s1, evs)"
    by (cases "poll_step build xm ws h r i s")
  have "isl (poll_outcome build xm ws h r i s 0)" using Suc.prems by blast
  then obtain e where e: "res = Inl e" using p by (cases res) (auto simp: poll_outcome_0)
  have "\<forall>j<n. isl (poll_outcome build xm ws h r (Suc i) s1 j)"
    using Suc.prems p by (metis Suc_less_eq poll_outcome_Suc fst_conv snd_conv)
  from Suc.IH[OF this] p e
  show ?case
    unfolding turns_unfold by (simp add: case_prod_unfold)
qed

lemma poll_trace_success:
  "k < n \<Longrightarrow> poll_outcome build xm ws h r i s k = Inr result \<Longrightarrow>
   (\<forall>j<k. isl (poll_outcome build xm ws h r i s j)) \<Longrightarrow>
   snd (snd (poll build xm ws h r n i s)) =
     concat (map (\<lambda>j. Sleep 3 # poll_events build xm ws h r i s j) [0..<Suc k])"
proof (induction n arbitrary: i s k)
  case 0
  then show ?case by simp
next
  case (Suc n)
  obtain res s1 evs where p: "poll_step build xm ws h r i s = (res, s1, evs)"
    by (cases "poll_step build xm ws h r i s")
  show ?case
  proof (cases k)
    case 0
    with Suc.prems(2) p have "res = Inr result" by (simp add: poll_outcome_0)
    with p 0 show ?thesis by (simp add: poll_events_0)
  next
    case (Suc k')
    have "isl (poll_outcome build xm ws h r i s 0)" using Suc.prems(3) Suc by blast
    then obtain e where e: "res = Inl e" using p by (cases res) (auto simp: poll_outcome_0)
    have a1: "k' < n" using Suc.prems(1) Suc by simp
    have a2: "poll_outcome build xm ws h r (Suc i) s1 k' = Inr result"
      using Suc.prems(2) Suc p by (simp add: poll_outcome_Suc)
    have a3: "\<forall>j<k'. isl (poll_outcome build xm ws h r (Suc i) s1 j)"
      using Suc.prems(3) Suc p by (metis Suc_less_eq poll_outcome_Suc fst_conv snd_conv)
    from Suc.IH[OF a1 a2 a3] p e
    show ?thesis
      unfolding Suc turns_unfold by (simp add: case_prod_unfold)
  qed
qed

text \<open>
  Claim C6, as the code has it. Let the broadcast raise an error that
  \<open>except RPCTimeoutError\<close> catches (an instance of the class or of a subclass of it),
  with \<open>trx_hash\<close> and \<open>receiver_id\<close> both given and not empty. The call then makes at
  most \<open>TIMEOUT_WAIT_RPC // 3\<close> turns, and what a turn does to the outside is the
  3-second sleep followed by the events of its one lookup, in this order; a lookup never
  sleeps. A lookup that raises, whatever it raises, is followed by the next turn. When
  the lookup of turn \<open>k\<close> is the first that returns an object, the call returns that
  object, and its events are those of the broadcast followed by the turns \<open>0\<close> to \<open>k\<close>;
  when every lookup raises, the call raises the error of the broadcast, unchanged, after
  all \<open>TIMEOUT_WAIT_RPC // 3\<close> turns.

  The counterexample is a run where the reply to the first lookup is
  \<open>{"result": {"final": true}}\<close>: \<open>TransactionResult(**{"final": True})\<close> raises
  \<open>TypeError\<close>, which is neither the internal error classification nor a failure to get
  a reply. The loop swallows it, and the call returns the object built from the reply to
  the second lookup.
\<close>

theorem send_tx_and_wait_polls:
  assumes "json_rpc xm s w ''broadcast_tx_commit'' (JList [JStr signed_tx]) = (Inl e, s1, evs)"
    and "is_rpc_timeout xm e"
    and "supplied trx_hash"
    and "supplied receiver_id"
  shows "(\<forall>k result.
            k < nat (TIMEOUT_WAIT_RPC div 3)
            \<and> poll_outcome build xm ws (the trx_hash) (the receiver_id) 0 s1 k = Inr result
            \<and> (\<forall>j<k. isl (poll_outcome build xm ws (the trx_hash) (the receiver_id) 0 s1 j))
          \<longrightarrow> fst (send_tx_and_wait build xm TIMEOUT_WAIT_RPC s w ws signed_tx trx_hash receiver_id)
                = Inr (Polled result)
            \<and> snd (snd (send_tx_and_wait build xm TIMEOUT_WAIT_RPC s w ws signed_tx trx_hash receiver_id))
                = evs @ concat (map (\<lambda>j. Sleep 3 #
                      poll_events build xm ws (the trx_hash) (the receiver_id) 0 s1 j) [0..<Suc k])
            \<and> filter is_sleep (snd (snd
                (send_tx_and_wait build xm TIMEOUT_WAIT_RPC s w ws signed_tx trx_hash receiver_id)))
                = replicate (Suc k) (Sleep 3))
       \<and> ((\<forall>j<nat (TIMEOUT_WAIT_RPC div 3).
              isl (poll_outcome build xm ws (the trx_hash) (the receiver_id) 0 s1 j))
          \<longrightarrow> fst (send_tx_and_wait build xm TIMEOUT_WAIT_RPC s w ws signed_tx trx_hash receiver_id)
                = Inl e
            \<and> snd (snd (send_tx_and_wait build xm TIMEOUT_WAIT_RPC s w ws signed_tx trx_hash receiver_id))
                = evs @ concat (map (\<lambda>j. Sleep 3 #
                      poll_events build xm ws (the trx_hash) (the receiver_id) 0 s1 j)
                      [0..<nat (TIMEOUT_WAIT_RPC div 3)])
            \<and> filter is_sleep (snd (snd
                (send_tx_and_wait build xm TIMEOUT_WAIT_RPC s w ws signed_tx trx_hash receiver_id)))
                = replicate (nat (TIMEOUT_WAIT_RPC div 3)) (Sleep 3))
       \<and> length (filter is_sleep (snd (snd
            (send_tx_and_wait build xm TIMEOUT_WAIT_RPC s w ws signed_tx trx_hash receiver_id))))
           \<le> nat (TIMEOUT_WAIT_RPC div 3)
       \<and> (\<forall>j. filter is_sleep
                 (poll_events build xm ws (the trx_hash) (the receiver_id) 0 s1 j) = [])"
proof -
  let ?n = "nat (TIMEOUT_WAIT_RPC div 3)"
  let ?p = "poll build xm ws (the trx_hash) (the receiver_id) ?n 0 s1"
  let ?turns = "\<lambda>m. concat (map (\<lambda>j. Sleep 3 #
                      poll_events build xm ws (the trx_hash) (the receiver_id) 0 s1 j) [0..<m])"
  have ns: "filter is_sleep evs = []"
    using assms(1) json_rpc_events[of xm s w "''broadcast_tx_commit''" "JList [JStr signed_tx]"]
      call_rpc_request_no_sleep[of s w "''broadcast_tx_commit''" "JList [JStr signed_tx]"]
    by simp
  have r: "fst (send_tx_and_wait build xm TIMEOUT_WAIT_RPC s w ws signed_tx trx_hash receiver_id)
      = (case fst ?p of Some result \<Rightarrow> Inr (Polled result) | None \<Rightarrow> Inl e)"
    using assms by (simp add: send_tx_and_wait_def case_prod_unfold split: option.splits)
  have t: "snd (snd (send_tx_and_wait build xm TIMEOUT_WAIT_RPC s w ws signed_tx trx_hash receiver_id)) = evs @ snd (snd ?p)"
    using assms by (simp add: send_tx_and_wait_def case_prod_unfold split: option.splits)
  have v: "filter is_sleep (snd (snd
        (send_tx_and_wait build xm TIMEOUT_WAIT_RPC s w ws signed_tx trx_hash receiver_id)))
      = filter is_sleep (snd (snd ?p))"
    using ns by (simp add: t)
  have 1: "fst ?p = Some result \<and> filter is_sleep (snd (snd ?p)) = replicate (Suc k) (Sleep 3)"
    if "k < ?n"
      "poll_outcome build xm ws (the trx_hash) (the receiver_id) 0 s1 k = Inr result"
      "\<forall>j<k. isl (poll_outcome build xm ws (the trx_hash) (the receiver_id) 0 s1 j)"
    for k result
    using that by (rule poll_first_success)
  have tr1: "snd (snd ?p) = ?turns (Suc k)"
    if "k < ?n"
      "poll_outcome build xm ws (the trx_hash) (the receiver_id) 0 s1 k = Inr result"
      "\<forall>j<k. isl (poll_outcome build xm ws (the trx_hash) (the receiver_id) 0 s1 j)"
    for k result
    using that by (rule poll_trace_success)
  have 2: "fst ?p = None \<and> filter is_sleep (snd (snd ?p)) = replicate ?n (Sleep 3)"
    if "\<forall>j<?n. isl (poll_outcome build xm ws (the trx_hash) (the receiver_id) 0 s1 j)"
    using that by (rule poll_all_fail)
  have tr2: "snd (snd ?p) = ?turns ?n"
    if "\<forall>j<?n. isl (poll_outcome build xm ws (the trx_hash) (the receiver_id) 0 s1 j)"
    using that by (rule poll_trace_all_fail)
  have 3: "length (filter is_sleep (snd (snd ?p))) \<le> ?n"
    using poll_sleeps_bound[of build xm ws "the trx_hash" "the receiver_id" ?n 0 s1] by simp
  show ?thesis
  proof (intro conjI allI impI)
    fix k result
    assume a: "k < ?n
            \<and> poll_outcome build xm ws (the trx_hash) (the receiver_id) 0 s1 k = Inr result
            \<and> (\<forall>j<k. isl (poll_outcome build xm ws (the trx_hash) (the receiver_id) 0 s1 j))"
    from 1[of k result] a
    have b: "fst ?p = Some result" "filter is_sleep (snd (snd ?p)) = replicate (Suc k) (Sleep 3)"
      by blast+
    from tr1[of k result] a have c: "snd (snd ?p) = ?turns (Suc k)" by blast
    show "fst (send_tx_and_wait build xm TIMEOUT_WAIT_RPC s w ws signed_tx trx_hash receiver_id)
                = Inr (Polled result)"
      by (simp add: r b)
    show "snd (snd (send_tx_and_wait build xm TIMEOUT_WAIT_RPC s w ws signed_tx trx_hash receiver_id)) = evs @ ?turns (Suc k)"
      by (simp only: t c)
    show "filter is_sleep (snd (snd
                (send_tx_and_wait build xm TIMEOUT_WAIT_RPC s w ws signed_tx trx_hash receiver_id)))
                = replicate (Suc k) (Sleep 3)"
      by (simp only: v b)
  next
    assume a: "\<forall>j<?n. isl (poll_outcome build xm ws (the trx_hash) (the receiver_id) 0 s1 j)"
    from 2[OF a]
    have b: "fst ?p = None" "filter is_sleep (snd (snd ?p)) = replicate ?n (Sleep 3)"
      by blast+
    from tr2[OF a] have c: "snd (snd ?p) = ?turns ?n" .
    show "fst (send_tx_and_wait build xm TIMEOUT_WAIT_RPC s w ws signed_tx trx_hash receiver_id)
                = Inl e"
      by (simp add: r b)
    show "snd (snd (send_tx_and_wait build xm TIMEOUT_WAIT_RPC s w ws signed_tx trx_hash receiver_id)) = evs @ ?turns ?n"
      by (simp only: t c)
    show "filter is_sleep (snd (snd
                (send_tx_and_wait build xm TIMEOUT_WAIT_RPC s w ws signed_tx trx_hash receiver_id)))
                = replicate ?n (Sleep 3)"
      by (simp only: v b)
  next
    show "length (filter is_sleep (snd (snd
            (send_tx_and_wait build xm TIMEOUT_WAIT_RPC s w ws signed_tx trx_hash receiver_id))))
           \<le> ?n"
      by (simp only: v 3)
  next
    fix j
    show "filter is_sleep (poll_events build xm ws (the trx_hash) (the receiver_id) 0 s1 j) = []"
      unfolding poll_events_def by (rule poll_step_no_sleep)
  qed
qed

theorem send_tx_and_wait_polls_witness:
  "fst (send_tx_and_wait (TransactionResult_init (\<lambda>a. Inl AttributeError :: exn + unit)) plain_module 9
     \<lparr>rpc_addresses = [''a''], available_rpcs = [''a''], last_rpc_addr_check = 100\<rparr>
     \<lparr>now_check = 110, now_stamp = 110, probes = (\<lambda>i. ProbeRaised ConnectionError),
      posts = (\<lambda>i. Response 200 (Some (JDict [(''error'',
                 JDict [(''cause'', JDict [(''name'', JStr ''TIMEOUT_ERROR'')]),
                        (''data'', JStr ''Timeout'')])])))\<rparr>
     (\<lambda>i. \<lparr>during_sleep = None,
        lookup = \<lparr>now_check = 120, now_stamp = 120,
                  probes = (\<lambda>i. ProbeRaised ConnectionError),
                  posts = (\<lambda>k. if i = 0 then Raised ClientConnectorError
                    else Response 200 (Some (JDict [(''result'', JDict [
          (''receipts_outcome'', JList [JDict [(''outcome'', JDict [
             (''gas_burnt'', JInt 2), (''logs'', JList [JStr ''r1'']), (''metadata'', JDict []),
             (''receipt_ids'', JList []), (''status'', JDict [(''SuccessValue'', JStr '''')]),
             (''tokens_burnt'', JStr ''0'')])]]),
          (''status'', JDict [(''SuccessValue'', JStr '''')]),
          (''transaction'', JDict [
             (''actions'', JList [JStr ''CreateAccount'']), (''hash'', JStr ''hash''),
             (''nonce'', JInt 1), (''public_key'', JStr ''ed25519:k''),
             (''receiver_id'', JStr ''bob.near''), (''signature'', JStr ''ed25519:s''),
             (''signer_id'', JStr ''alice.near'')]),
          (''transaction_outcome'', JDict [(''outcome'', JDict [
             (''gas_burnt'', JInt 1), (''logs'', JList [JStr ''tx'']), (''metadata'', JDict []),
             (''receipt_ids'', JList [JStr ''r'']),
             (''status'', JDict [(''SuccessReceiptId'', JStr ''r'')]),
             (''tokens_burnt'', JStr ''0'')])])])])))\<rparr>\<rparr>)
     ''signed'' (Some ''hash'') (Some ''bob.near''))
   = Inr (Polled (ResultObj (JDict [(''SuccessValue'', JStr '''')])
          (TransactionObj [CreateAccountAction] (JInt 1) (JStr ''alice.near'')
             (JStr ''ed25519:k'') (JStr ''bob.near'') (JStr ''ed25519:s'') (JStr ''hash''))
          (OutcomeObj (JList [JStr ''tx'']) (JDict []) (JList [JStr ''r''])
             (JDict [(''SuccessReceiptId'', JStr ''r'')]) (JStr ''0'') (JInt 1))
          [OutcomeObj (JList [JStr ''r1'']) (JDict []) (JList [])
             (JDict [(''SuccessValue'', JStr '''')]) (JStr ''0'') (JInt 2)]))
 \<and> snd (snd (send_tx_and_wait (TransactionResult_init (\<lambda>a. Inl AttributeError :: exn + unit)) plain_module 9
     \<lparr>rpc_addresses = [''a''], available_rpcs = [''a''], last_rpc_addr_check = 100\<rparr>
     \<lparr>now_check = 110, now_stamp = 110, probes = (\<lambda>i. ProbeRaised ConnectionError),
      posts = (\<lambda>i. Response 200 (Some (JDict [(''error'',
                 JDict [(''cause'', JDict [(''name'', JStr ''TIMEOUT_ERROR'')]),
                        (''data'', JStr ''Timeout'')])])))\<rparr>
     (\<lambda>i. \<lparr>during_sleep = None,
        lookup = \<lparr>now_check = 120, now_stamp = 120,
                  probes = (\<lambda>i. ProbeRaised ConnectionError),
                  posts = (\<lambda>k. if i = 0 then Raised ClientConnectorError
                    else Response 200 (Some (JDict [(''result'', JDict [
          (''receipts_outcome'', JList [JDict [(''outcome'', JDict [
             (''gas_burnt'', JInt 2), (''logs'', JList [JStr ''r1'']), (''metadata'', JDict []),
             (''receipt_ids'', JList []), (''status'', JDict [(''SuccessValue'', JStr '''')]),
             (''tokens_burnt'', JStr ''0'')])]]),
          (''status'', JDict [(''SuccessValue'', JStr '''')]),
          (''transaction'', JDict [
             (''actions'', JList [JStr ''CreateAccount'']), (''hash'', JStr ''hash''),
             (''nonce'', JInt 1), (''public_key'', JStr ''ed25519:k''),
             (''receiver_id'', JStr ''bob.near''), (''signature'', JStr ''ed25519:s''),
             (''signer_id'', JStr ''alice.near'')]),
          (''transaction_outcome'', JDict [(''outcome'', JDict [
             (''gas_burnt'', JInt 1), (''logs'', JList [JStr ''tx'']), (''metadata'', JDict []),
             (''receipt_ids'', JList [JStr ''r'']),
             (''status'', JDict [(''SuccessReceiptId'', JStr ''r'')]),
             (''tokens_burnt'', JStr ''0'')])])])])))\<rparr>\<rparr>)
     ''signed'' (Some ''hash'') (Some ''bob.near'')))
   = [Post ''a'' (envelope ''broadcast_tx_commit'' (JList [JStr ''signed''])), Sleep 3, Post ''a'' (envelope ''tx'' (JList [JStr ''hash'', JStr ''bob.near''])),
      Log (RpcErrorMsg ClientConnectorError), Sleep 3, Post ''a'' (envelope ''tx'' (JList [JStr ''hash'', JStr ''bob.near'']))]
 \<and> fst (send_tx_and_wait (TransactionResult_init (\<lambda>a. Inl AttributeError :: exn + unit)) plain_module 7
     \<lparr>rpc_addresses = [''a''], available_rpcs = [''a''], last_rpc_addr_check = 100\<rparr>
     \<lparr>now_check = 110, now_stamp = 110, probes = (\<lambda>i. ProbeRaised ConnectionError),
      posts = (\<lambda>i. Response 200 (Some (JDict [(''error'',
                 JDict [(''cause'', JDict [(''name'', JStr ''TIMEOUT_ERROR'')]),
                        (''data'', JStr ''Timeout'')])])))\<rparr>
     (\<lambda>i. \<lparr>during_sleep = None,
        lookup = \<lparr>now_check = 120, now_stamp = 120,
                  probes = (\<lambda>i. ProbeRaised ConnectionError),
                  posts = (\<lambda>k. Response 200 (Some (JDict [(''result'', JDict [(''final'', JBool True)])])))\<rparr>\<rparr>)
     ''signed'' (Some ''hash'') (Some ''bob.near''))
   = Inl (RpcError (Provider RPCTimeoutError) (JStr ''Timeout'')
            (JDict [(''cause'', JDict [(''name'', JStr ''TIMEOUT_ERROR'')]),
                    (''data'', JStr ''Timeout'')]))
 \<and> snd (snd (send_tx_and_wait (TransactionResult_init (\<lambda>a. Inl AttributeError :: exn + unit)) plain_module 7
     \<lparr>rpc_addresses = [''a''], available_rpcs = [''a''], last_rpc_addr_check = 100\<rparr>
     \<lparr>now_check = 110, now_stamp = 110, probes = (\<lambda>i. ProbeRaised ConnectionError),
      posts = (\<lambda>i. Response 200 (Some (JDict [(''error'',
                 JDict [(''cause'', JDict [(''name'', JStr ''TIMEOUT_ERROR'')]),
                        (''data'', JStr ''Timeout'')])])))\<rparr>
     (\<lambda>i. \<lparr>during_sleep = None,
        lookup = \<lparr>now_check = 120, now_stamp = 120,
                  probes = (\<lambda>i. ProbeRaised ConnectionError),
                  posts = (\<lambda>k. Response 200 (Some (JDict [(''result'', JDict [(''final'', JBool True)])])))\<rparr>\<rparr>)
     ''signed'' (Some ''hash'') (Some ''bob.near'')))
   = [Post ''a'' (envelope ''broadcast_tx_commit'' (JList [JStr ''signed''])), Sleep 3, Post ''a'' (envelope ''tx'' (JList [JStr ''hash'', JStr ''bob.near''])), Sleep 3, Post ''a'' (envelope ''tx'' (JList [JStr ''hash'', JStr ''bob.near'']))]"
proof -
  let ?S = "\<lparr>rpc_addresses = [''a''], available_rpcs = [''a''], last_rpc_addr_check = 100\<rparr>"
  let ?W = "\<lparr>now_check = 110, now_stamp = 110, probes = (\<lambda>i. ProbeRaised ConnectionError),
      posts = (\<lambda>i. Response 200 (Some (JDict [(''error'',
                 JDict [(''cause'', JDict [(''name'', JStr ''TIMEOUT_ERROR'')]),
                        (''data'', JStr ''Timeout'')])])))\<rparr>"
  let ?WS1 = "(\<lambda>i. \<lparr>during_sleep = None,
        lookup = \<lparr>now_check = 120, now_stamp = 120,
                  probes = (\<lambda>i. ProbeRaised ConnectionError),
                  posts = (\<lambda>k. if i = 0 then Raised ClientConnectorError
                    else Response 200 (Some (JDict [(''result'', JDict [
          (''receipts_outcome'', JList [JDict [(''outcome'', JDict [
             (''gas_burnt'', JInt 2), (''logs'', JList [JStr ''r1'']), (''metadata'', JDict []),
             (''receipt_ids'', JList []), (''status'', JDict [(''SuccessValue'', JStr '''')]),
             (''tokens_burnt'', JStr ''0'')])]]),
          (''status'', JDict [(''SuccessValue'', JStr '''')]),
          (''transaction'', JDict [
             (''actions'', JList [JStr ''CreateAccount'']), (''hash'', JStr ''hash''),
             (''nonce'', JInt 1), (''public_key'', JStr ''ed25519:k''),
             (''receiver_id'', JStr ''bob.near''), (''signature'', JStr ''ed25519:s''),
             (''signer_id'', JStr ''alice.near'')]),
          (''transaction_outcome'', JDict [(''outcome'', JDict [
             (''gas_burnt'', JInt 1), (''logs'', JList [JStr ''tx'']), (''metadata'', JDict []),
             (''receipt_ids'', JList [JStr ''r'']),
             (''status'', JDict [(''SuccessReceiptId'', JStr ''r'')]),
             (''tokens_burnt'', JStr ''0'')])])])])))\<rparr>\<rparr>)"
  let ?WS2 = "(\<lambda>i. \<lparr>during_sleep = None,
        lookup = \<lparr>now_check = 120, now_stamp = 120,
                  probes = (\<lambda>i. ProbeRaised ConnectionError),
                  posts = (\<lambda>k. Response 200 (Some (JDict [(''result'', JDict [(''final'', JBool True)])])))\<rparr>\<rparr>)"
  let ?B = "(TransactionResult_init (\<lambda>a. Inl AttributeError :: exn + unit))"
  let ?E = "(RpcError (Provider RPCTimeoutError) (JStr ''Timeout'')
            (JDict [(''cause'', JDict [(''name'', JStr ''TIMEOUT_ERROR'')]),
                    (''data'', JStr ''Timeout'')]))"
  let ?ev = "[Post ''a'' (envelope ''broadcast_tx_commit'' (JList [JStr ''signed'']))]"
  have b: "json_rpc plain_module ?S ?W ''broadcast_tx_commit'' (JList [JStr ''signed''])
             = (Inl ?E, ?S, ?ev)"
    by (simp add: json_rpc_def call_rpc_request_def freshness_def classify_def construct_def
                  plain_module_def PROVIDER_CODE_TO_EXCEPTION_def)
  have t: "is_rpc_timeout plain_module ?E" by simp
  have h: "supplied (Some ''hash'')" and r: "supplied (Some ''bob.near'')" by simp_all
  have o1: "(1::nat) < nat (9 div 3)
      \<and> poll_outcome ?B plain_module ?WS1 (the (Some ''hash'')) (the (Some ''bob.near'')) 0 ?S 1
          = Inr (ResultObj (JDict [(''SuccessValue'', JStr '''')])
          (TransactionObj [CreateAccountAction] (JInt 1) (JStr ''alice.near'')
             (JStr ''ed25519:k'') (JStr ''bob.near'') (JStr ''ed25519:s'') (JStr ''hash''))
          (OutcomeObj (JList [JStr ''tx'']) (JDict []) (JList [JStr ''r''])
             (JDict [(''SuccessReceiptId'', JStr ''r'')]) (JStr ''0'') (JInt 1))
          [OutcomeObj (JList [JStr ''r1'']) (JDict []) (JList [])
             (JDict [(''SuccessValue'', JStr '''')]) (JStr ''0'') (JInt 2)])
      \<and> (\<forall>j<1. isl (poll_outcome ?B plain_module ?WS1 (the (Some ''hash''))
                         (the (Some ''bob.near'')) 0 ?S j))"
    by (simp add: poll_outcome_def poll_step_def get_tx_def after_sleep_def
                  json_rpc_def call_rpc_request_def freshness_def classify_def construct_def
                  plain_module_def PROVIDER_CODE_TO_EXCEPTION_def
                  TransactionResult_init_def TransactionData_init_def ReceiptOutcome_init_def
                  ReceiptAction_build_def outcome_field_def then_exn_def has_keys_def
                  only_keys_def)
  have o2: "\<forall>j<nat (7 div 3). isl (poll_outcome ?B plain_module ?WS2 (the (Some ''hash''))
                         (the (Some ''bob.near'')) 0 ?S j)"
  proof (intro allI impI)
    fix j :: nat assume "j < nat (7 div 3)"
    then have "j = 0 \<or> j = 1" by auto
    then show "isl (poll_outcome ?B plain_module ?WS2 (the (Some ''hash''))
                         (the (Some ''bob.near'')) 0 ?S j)"
      by (auto simp: poll_outcome_def poll_step_def get_tx_def after_sleep_def
                  json_rpc_def call_rpc_request_def freshness_def classify_def construct_def
                  plain_module_def PROVIDER_CODE_TO_EXCEPTION_def
                  TransactionResult_init_def TransactionData_init_def ReceiptOutcome_init_def
                  ReceiptAction_build_def outcome_field_def then_exn_def has_keys_def
                  only_keys_def)
  qed
  have u: "[0..<Suc 1] = [0, 1]" "[0..<nat (7 div 3)] = [0, 1]"
    by (simp_all add: upt_rec)
  have e1: "poll_events ?B plain_module ?WS1 (the (Some ''hash'')) (the (Some ''bob.near'')) 0 ?S 0
        = [Post ''a'' (envelope ''tx'' (JList [JStr ''hash'', JStr ''bob.near''])), Log (RpcErrorMsg ClientConnectorError)]"
    "poll_events ?B plain_module ?WS1 (the (Some ''hash'')) (the (Some ''bob.near'')) 0 ?S 1
        = [Post ''a'' (envelope ''tx'' (JList [JStr ''hash'', JStr ''bob.near'']))]"
    by (simp_all add: poll_events_def poll_step_def get_tx_def after_sleep_def
                  json_rpc_def call_rpc_request_def freshness_def classify_def construct_def
                  plain_module_def PROVIDER_CODE_TO_EXCEPTION_def)
  have e2: "poll_events ?B plain_module ?WS2 (the (Some ''hash'')) (the (Some ''bob.near'')) 0 ?S 0
        = [Post ''a'' (envelope ''tx'' (JList [JStr ''hash'', JStr ''bob.near'']))]"
    "poll_events ?B plain_module ?WS2 (the (Some ''hash'')) (the (Some ''bob.near'')) 0 ?S 1
        = [Post ''a'' (envelope ''tx'' (JList [JStr ''hash'', JStr ''bob.near'']))]"
    by (simp_all add: poll_events_def poll_step_def get_tx_def after_sleep_def
                  json_rpc_def call_rpc_request_def freshness_def classify_def construct_def
                  plain_module_def PROVIDER_CODE_TO_EXCEPTION_def)
  from send_tx_and_wait_polls[OF b t h r, of 9 ?B ?WS1] o1
  have 1: "fst (send_tx_and_wait ?B plain_module 9 ?S ?W ?WS1 ''signed'' (Some ''hash'') (Some ''bob.near''))
        = Inr (Polled (ResultObj (JDict [(''SuccessValue'', JStr '''')])
          (TransactionObj [CreateAccountAction] (JInt 1) (JStr ''alice.near'')
             (JStr ''ed25519:k'') (JStr ''bob.near'') (JStr ''ed25519:s'') (JStr ''hash''))
          (OutcomeObj (JList [JStr ''tx'']) (JDict []) (JList [JStr ''r''])
             (JDict [(''SuccessReceiptId'', JStr ''r'')]) (JStr ''0'') (JInt 1))
          [OutcomeObj (JList [JStr ''r1'']) (JDict []) (JList [])
             (JDict [(''SuccessValue'', JStr '''')]) (JStr ''0'') (JInt 2)]))
      \<and> snd (snd (send_tx_and_wait ?B plain_module 9 ?S ?W ?WS1 ''signed'' (Some ''hash'') (Some ''bob.near'')))
        = ?ev @ concat (map (\<lambda>j. Sleep 3 #
              poll_events ?B plain_module ?WS1 (the (Some ''hash'')) (the (Some ''bob.near'')) 0 ?S j)
              [0..<Suc 1])"
    by blast
  from send_tx_and_wait_polls[OF b t h r, of 7 ?B ?WS2] o2
  have 2: "fst (send_tx_and_wait ?B plain_module 7 ?S ?W ?WS2 ''signed'' (Some ''hash'') (Some ''bob.near''))
        = Inl ?E
      \<and> snd (snd (send_tx_and_wait ?B plain_module 7 ?S ?W ?WS2 ''signed'' (Some ''hash'') (Some ''bob.near'')))
        = ?ev @ concat (map (\<lambda>j. Sleep 3 #
              poll_events ?B plain_module ?WS2 (the (Some ''hash'')) (the (Some ''bob.near'')) 0 ?S j)
              [0..<nat (7 div 3)])"
    by blast
  have c1: "?ev @ concat (map (\<lambda>j. Sleep 3 #
              poll_events ?B plain_module ?WS1 (the (Some ''hash'')) (the (Some ''bob.near'')) 0 ?S j)
              [0..<Suc 1]) = [Post ''a'' (envelope ''broadcast_tx_commit'' (JList [JStr ''signed''])), Sleep 3, Post ''a'' (envelope ''tx'' (JList [JStr ''hash'', JStr ''bob.near''])),
      Log (RpcErrorMsg ClientConnectorError), Sleep 3, Post ''a'' (envelope ''tx'' (JList [JStr ''hash'', JStr ''bob.near'']))]"
    unfolding u using e1 by simp
  have c2: "?ev @ concat (map (\<lambda>j. Sleep 3 #
              poll_events ?B plain_module ?WS2 (the (Some ''hash'')) (the (Some ''bob.near'')) 0 ?S j)
              [0..<nat (7 div 3)]) = [Post ''a'' (envelope ''broadcast_tx_commit'' (JList [JStr ''signed''])), Sleep 3, Post ''a'' (envelope ''tx'' (JList [JStr ''hash'', JStr ''bob.near''])), Sleep 3, Post ''a'' (envelope ''tx'' (JList [JStr ''hash'', JStr ''bob.near'']))]"
    unfolding u using e2 by simp
  from 1 2 show ?thesis unfolding c1 c2 by blast
qed

theorem send_tx_and_wait_polls_counterexample:
  "fst (send_tx_and_wait (TransactionResult_init (\<lambda>a. Inl AttributeError :: exn + unit)) plain_module 9
     \<lparr>rpc_addresses = [''a''], available_rpcs = [''a''], last_rpc_addr_check = 100\<rparr>
     \<lparr>now_check = 110, now_stamp = 110, probes = (\<lambda>i. ProbeRaised ConnectionError),
      posts = (\<lambda>i. Response 200 (Some (JDict [(''error'',
                 JDict [(''cause'', JDict [(''name'', JStr ''TIMEOUT_ERROR'')]),
                        (''data'', JStr ''Timeout'')])])))\<rparr>
     (\<lambda>i. \<lparr>during_sleep = None,
        lookup = \<lparr>now_check = 120, now_stamp = 120,
                  probes = (\<lambda>i. ProbeRaised ConnectionError),
                  posts = (\<lambda>k. Response 200 (Some (if i = 0 then JDict [(''result'', JDict [(''final'', JBool True)])]
                    else JDict [(''result'', JDict [
          (''receipts_outcome'', JList [JDict [(''outcome'', JDict [
             (''gas_burnt'', JInt 2), (''logs'', JList [JStr ''r1'']), (''metadata'', JDict []),
             (''receipt_ids'', JList []), (''status'', JDict [(''SuccessValue'', JStr '''')]),
             (''tokens_burnt'', JStr ''0'')])]]),
          (''status'', JDict [(''SuccessValue'', JStr '''')]),
          (''transaction'', JDict [
             (''actions'', JList [JStr ''CreateAccount'']), (''hash'', JStr ''hash''),
             (''nonce'', JInt 1), (''public_key'', JStr ''ed25519:k''),
             (''receiver_id'', JStr ''bob.near''), (''signature'', JStr ''ed25519:s''),
             (''signer_id'', JStr ''alice.near'')]),
          (''transaction_outcome'', JDict [(''outcome'', JDict [
             (''gas_burnt'', JInt 1), (''logs'', JList [JStr ''tx'']), (''metadata'', JDict []),
             (''receipt_ids'', JList [JStr ''r'']),
             (''status'', JDict [(''SuccessReceiptId'', JStr ''r'')]),
             (''tokens_burnt'', JStr ''0'')])])])])))\<rparr>\<rparr>)
     ''signed'' (Some ''hash'') (Some ''bob.near''))
   = Inr (Polled (ResultObj (JDict [(''SuccessValue'', JStr '''')])
          (TransactionObj [CreateAccountAction] (JInt 1) (JStr ''alice.near'')
             (JStr ''ed25519:k'') (JStr ''bob.near'') (JStr ''ed25519:s'') (JStr ''hash''))
          (OutcomeObj (JList [JStr ''tx'']) (JDict []) (JList [JStr ''r''])
             (JDict [(''SuccessReceiptId'', JStr ''r'')]) (JStr ''0'') (JInt 1))
          [OutcomeObj (JList [JStr ''r1'']) (JDict []) (JList [])
             (JDict [(''SuccessValue'', JStr '''')]) (JStr ''0'') (JInt 2)]))
 \<and> snd (snd (send_tx_and_wait (TransactionResult_init (\<lambda>a. Inl AttributeError :: exn + unit)) plain_module 9
     \<lparr>rpc_addresses = [''a''], available_rpcs = [''a''], last_rpc_addr_check = 100\<rparr>
     \<lparr>now_check = 110, now_stamp = 110, probes = (\<lambda>i. ProbeRaised ConnectionError),
      posts = (\<lambda>i. Response 200 (Some (JDict [(''error'',
                 JDict [(''cause'', JDict [(''name'', JStr ''TIMEOUT_ERROR'')]),
                        (''data'', JStr ''Timeout'')])])))\<rparr>
     (\<lambda>i. \<lparr>during_sleep = None,
        lookup = \<lparr>now_check = 120, now_stamp = 120,
                  probes = (\<lambda>i. ProbeRaised ConnectionError),
                  posts = (\<lambda>k. Response 200 (Some (if i = 0 then JDict [(''result'', JDict [(''final'', JBool True)])]
                    else JDict [(''result'', JDict [
          (''receipts_outcome'', JList [JDict [(''outcome'', JDict [
             (''gas_burnt'', JInt 2), (''logs'', JList [JStr ''r1'']), (''metadata'', JDict []),
             (''receipt_ids'', JList []), (''status'', JDict [(''SuccessValue'', JStr '''')]),
             (''tokens_burnt'', JStr ''0'')])]]),
          (''status'', JDict [(''SuccessValue'', JStr '''')]),
          (''transaction'', JDict [
             (''actions'', JList [JStr ''CreateAccount'']), (''hash'', JStr ''hash''),
             (''nonce'', JInt 1), (''public_key'', JStr ''ed25519:k''),
             (''receiver_id'', JStr ''bob.near''), (''signature'', JStr ''ed25519:s''),
             (''signer_id'', JStr ''alice.near'')]),
          (''transaction_outcome'', JDict [(''outcome'', JDict [
             (''gas_burnt'', JInt 1), (''logs'', JList [JStr ''tx'']), (''metadata'', JDict []),
             (''receipt_ids'', JList [JStr ''r'']),
             (''status'', JDict [(''SuccessReceiptId'', JStr ''r'')]),
             (''tokens_burnt'', JStr ''0'')])])])])))\<rparr>\<rparr>)
     ''signed'' (Some ''hash'') (Some ''bob.near'')))
   = [Post ''a'' (envelope ''broadcast_tx_commit'' (JList [JStr ''signed''])), Sleep 3, Post ''a'' (envelope ''tx'' (JList [JStr ''hash'', JStr ''bob.near''])), Sleep 3, Post ''a'' (envelope ''tx'' (JList [JStr ''hash'', JStr ''bob.near'']))]
 \<and> poll_outcome (TransactionResult_init (\<lambda>a. Inl AttributeError :: exn + unit)) plain_module
     (\<lambda>i. \<lparr>during_sleep = None,
        lookup = \<lparr>now_check = 120, now_stamp = 120,
                  probes = (\<lambda>i. ProbeRaised ConnectionError),
                  posts = (\<lambda>k. Response 200 (Some (if i = 0 then JDict [(''result'', JDict [(''final'', JBool True)])]
                    else JDict [(''result'', JDict [
          (''receipts_outcome'', JList [JDict [(''outcome'', JDict [
             (''gas_burnt'', JInt 2), (''logs'', JList [JStr ''r1'']), (''metadata'', JDict []),
             (''receipt_ids'', JList []), (''status'', JDict [(''SuccessValue'', JStr '''')]),
             (''tokens_burnt'', JStr ''0'')])]]),
          (''status'', JDict [(''SuccessValue'', JStr '''')]),
          (''transaction'', JDict [
             (''actions'', JList [JStr ''CreateAccount'']), (''hash'', JStr ''hash''),
             (''nonce'', JInt 1), (''public_key'', JStr ''ed25519:k''),
             (''receiver_id'', JStr ''bob.near''), (''signature'', JStr ''ed25519:s''),
             (''signer_id'', JStr ''alice.near'')]),
          (''transaction_outcome'', JDict [(''outcome'', JDict [
             (''gas_burnt'', JInt 1), (''logs'', JList [JStr ''tx'']), (''metadata'', JDict []),
             (''receipt_ids'', JList [JStr ''r'']),
             (''status'', JDict [(''SuccessReceiptId'', JStr ''r'')]),
             (''tokens_burnt'', JStr ''0'')])])])])))\<rparr>\<rparr>)
     ''hash'' ''bob.near'' 0
     \<lparr>rpc_addresses = [''a''], available_rpcs = [''a''], last_rpc_addr_check = 100\<rparr> 0
   = Inl TypeError
 \<and> \<not> retryable_per_spec TypeError"
  by (simp add: send_tx_and_wait_def poll_outcome_def poll_step_def get_tx_def after_sleep_def
                  json_rpc_def call_rpc_request_def freshness_def classify_def construct_def
                  plain_module_def PROVIDER_CODE_TO_EXCEPTION_def
                  TransactionResult_init_def TransactionData_init_def ReceiptOutcome_init_def
                  ReceiptAction_build_def outcome_field_def then_exn_def has_keys_def
                  only_keys_def
                eval_nat_numeral)

end
